theory Spec2Isabelle
  imports Main "HOL-Library.AList"
begin

section \<open>Dates and times of the Python library\<close>

text \<open>
  The script works with naive \<^verbatim>\<open>datetime\<close> values. A datetime is modelled by the number of
  microseconds since the midnight that starts day 0 of the proleptic Gregorian ordinal
  (0001-01-01 is day 1), a \<^verbatim>\<open>timedelta\<close> by a number of microseconds, and a \<^verbatim>\<open>date\<close> by its
  ordinal. Comparison, addition and subtraction are then those of the integers, as they are
  for Python's values. The range of years 1..9999 that Python enforces on the results of
  arithmetic is not modelled; it is enforced where a datetime is built from a year, a month
  and a day.
\<close>

type_synonym datetime = int

type_synonym timedelta = int

type_synonym pydate = int

definition DAY :: timedelta where
  "DAY = 86400000000"

text \<open>\<^verbatim>\<open>timedelta(days=n)\<close>\<close>

definition timedelta :: "int \<Rightarrow> timedelta" where
  "timedelta n = n * DAY"

text \<open>\<^verbatim>\<open>td.days\<close>: a timedelta is normalised with its seconds and microseconds non-negative, so
  the days are the floor of the quotient.\<close>

definition days :: "timedelta \<Rightarrow> int" where
  "days td = td div DAY"

text \<open>\<^verbatim>\<open>dt.date()\<close>\<close>

definition date_of :: "datetime \<Rightarrow> pydate" where
  "date_of dt = dt div DAY"

datatype exn = HTTPError int | ValueError | KeyError | ConnectionError | MaxRetriesReached

definition is_leap :: "int \<Rightarrow> bool" where
  "is_leap year = (year mod 4 = 0 \<and> (year mod 100 \<noteq> 0 \<or> year mod 400 = 0))"

definition days_before_year :: "int \<Rightarrow> int" where
  "days_before_year year = (let y = year - 1 in y * 365 + y div 4 - y div 100 + y div 400)"

definition DAYS_IN_MONTH :: "int list" where
  "DAYS_IN_MONTH = [31, 28, 31, 30, 31, 30, 31, 31, 30, 31, 30, 31]"

definition days_in_month :: "int \<Rightarrow> int \<Rightarrow> int" where
  "days_in_month year month =
     (if month = 2 \<and> is_leap year then 29 else DAYS_IN_MONTH ! nat (month - 1))"

definition days_before_month :: "int \<Rightarrow> int \<Rightarrow> int" where
  "days_before_month year month =
     sum_list (take (nat (month - 1)) DAYS_IN_MONTH) + (if 2 < month \<and> is_leap year then 1 else 0)"

definition ymd2ord :: "int \<Rightarrow> int \<Rightarrow> int \<Rightarrow> pydate" where
  "ymd2ord year month day = days_before_year year + days_before_month year month + day"

text \<open>\<^verbatim>\<open>datetime(year, month, day, hour, minute, second)\<close>, which raises ValueError on a field
  out of range.\<close>

definition datetime_hms :: "int \<Rightarrow> int \<Rightarrow> int \<Rightarrow> int \<Rightarrow> int \<Rightarrow> int \<Rightarrow> exn + datetime" where
  "datetime_hms year month day hour minute second =
     (if 1 \<le> year \<and> year \<le> 9999 \<and> 1 \<le> month \<and> month \<le> 12
         \<and> 1 \<le> day \<and> day \<le> days_in_month year month
         \<and> 0 \<le> hour \<and> hour \<le> 23 \<and> 0 \<le> minute \<and> minute \<le> 59 \<and> 0 \<le> second \<and> second \<le> 59
      then Inr (ymd2ord year month day * DAY + ((hour * 60 + minute) * 60 + second) * 1000000)
      else Inl ValueError)"

text \<open>\<^verbatim>\<open>datetime(year, month, day)\<close>\<close>

definition datetime_ymd :: "int \<Rightarrow> int \<Rightarrow> int \<Rightarrow> exn + datetime" where
  "datetime_ymd year month day = datetime_hms year month day 0 0 0"

text \<open>The year, month and day of an ordinal, as \<^verbatim>\<open>datetime\<close> computes them for \<^verbatim>\<open>strftime\<close>.\<close>

definition ord2ymd :: "pydate \<Rightarrow> int \<times> int \<times> int" where
  "ord2ymd ordinal =
     (let n = ordinal - 1;
          n400 = n div 146097; n = n mod 146097;
          n100 = n div 36524; n = n mod 36524;
          n4 = n div 1461; n = n mod 1461;
          n1 = n div 365; n = n mod 365;
          year = n400 * 400 + 1 + n100 * 100 + n4 * 4 + n1
      in if n1 = 4 \<or> n100 = 4 then (year - 1, 12, 31)
         else
           (let leapyear = (n1 = 3 \<and> (n4 \<noteq> 24 \<or> n100 = 3));
                month = (n + 50) div 32;
                preceding = sum_list (take (nat (month - 1)) DAYS_IN_MONTH)
                              + (if 2 < month \<and> leapyear then 1 else 0)
            in if n < preceding
               then (year, month - 1,
                     n - (preceding - (DAYS_IN_MONTH ! nat (month - 2)
                                        + (if month - 1 = 2 \<and> leapyear then 1 else 0))) + 1)
               else (year, month, n - preceding + 1)))"

section \<open>Strings, numbers and dictionaries of the Python library\<close>

text \<open>
  A computation that may raise returns \<open>Inl\<close> of the exception or \<open>Inr\<close> of its value;
  \<open>bind_exn\<close> runs the next statement on the value and lets an exception pass.
\<close>

definition bind_exn :: "exn + 'a \<Rightarrow> ('a \<Rightarrow> exn + 'b) \<Rightarrow> exn + 'b" where
  "bind_exn m f = (case m of Inl e \<Rightarrow> Inl e | Inr x \<Rightarrow> f x)"

text \<open>
  Strings are lists of characters, read as code points below 256. \<^verbatim>\<open>s.find(sub)\<close> is the
  lowest index at which \<^verbatim>\<open>sub\<close> occurs in \<^verbatim>\<open>s\<close>, or -1; \<^verbatim>\<open>s[i:j]\<close> counts a negative index from
  the end and clamps both indices to the string; \<^verbatim>\<open>s.strip()\<close> removes the leading and
  trailing whitespace, the characters for which \<^verbatim>\<open>str.isspace\<close> holds.
\<close>

fun str_find :: "string \<Rightarrow> string \<Rightarrow> int" where
  "str_find [] sub = (if sub = [] then 0 else - 1)"
| "str_find (c # s) sub =
     (if take (length sub) (c # s) = sub then 0
      else (let r = str_find s sub in if r < 0 then - 1 else r + 1))"

definition slice :: "'a list \<Rightarrow> int \<Rightarrow> int \<Rightarrow> 'a list" where
  "slice s i j =
     (let n = int (length s);
          lo = (if i < 0 then max (i + n) 0 else min i n);
          hi = (if j < 0 then max (j + n) 0 else min j n)
      in drop (nat lo) (take (nat hi) s))"

definition isspace :: "char \<Rightarrow> bool" where
  "isspace c = (of_char c \<in> {9, 10, 11, 12, 13, 28, 29, 30, 31, 32, 133, 160 :: nat})"

definition strip :: "string \<Rightarrow> string" where
  "strip s = rev (dropWhile isspace (rev (dropWhile isspace s)))"

text \<open>\<^verbatim>\<open>sep.join(xs)\<close>, \<^verbatim>\<open>s.split(sep)\<close> for a separator of one character, and the decimal digits.\<close>

fun join :: "string \<Rightarrow> string list \<Rightarrow> string" where
  "join sep [] = []"
| "join sep [x] = x"
| "join sep (x # y # ys) = x @ sep @ join sep (y # ys)"

fun split_on :: "char \<Rightarrow> string \<Rightarrow> string list" where
  "split_on sep [] = [[]]"
| "split_on sep (c # s) =
     (if c = sep then [] # split_on sep s
      else (case split_on sep s of p # ps \<Rightarrow> (c # p) # ps | [] \<Rightarrow> [[c]]))"

definition isdigit :: "char \<Rightarrow> bool" where
  "isdigit c = (c \<in> set ''0123456789'')"

definition int_of_digits :: "string \<Rightarrow> int" where
  "int_of_digits s = foldl (\<lambda>n c. 10 * n + (of_char c - 48)) 0 s"

text \<open>
  \<^verbatim>\<open>int(s)\<close> of a string: surrounding whitespace is ignored, one sign may lead, and the rest
  is a non-empty run of decimal digits in which single underscores may separate digits;
  anything else raises ValueError.
\<close>

fun underscores_ok :: "string \<Rightarrow> bool" where
  "underscores_ok [] = False"
| "underscores_ok [c] = isdigit c"
| "underscores_ok (c # d # s) =
     (isdigit c \<and> (if d = CHR ''_'' then underscores_ok s else underscores_ok (d # s)))"

definition py_int :: "string \<Rightarrow> exn + int" where
  "py_int s =
     (let t = strip s;
          negative = (take 1 t = ''-'');
          body = (if take 1 t = ''-'' \<or> take 1 t = ''+'' then drop 1 t else t)
      in if underscores_ok body
         then Inr ((if negative then - 1 else 1) * int_of_digits (filter isdigit body))
         else Inl ValueError)"

text \<open>\<^verbatim>\<open>str(n)\<close> of an integer, and padding with zeros on the left to a width.\<close>

fun str_nat :: "nat \<Rightarrow> string" where
  "str_nat n =
     (if n < 10 then [''0123456789'' ! n]
      else str_nat (n div 10) @ [''0123456789'' ! (n mod 10)])"

definition str_int :: "int \<Rightarrow> string" where
  "str_int i = (if i < 0 then CHR ''-'' # str_nat (nat (- i)) else str_nat (nat i))"

definition zfill :: "nat \<Rightarrow> string \<Rightarrow> string" where
  "zfill width s = replicate (width - length s) CHR ''0'' @ s"

text \<open>
  A dictionary whose values are strings is the list of its items; \<^verbatim>\<open>d.get(k, default)\<close>,
  \<^verbatim>\<open>d[k]\<close>, which raises KeyError for a missing key, and the lookup of a key that a payload
  may lack.
\<close>

type_synonym pydict = "(string \<times> string) list"

definition get :: "pydict \<Rightarrow> string \<Rightarrow> string \<Rightarrow> string" where
  "get d k dflt = (case map_of d k of None \<Rightarrow> dflt | Some v \<Rightarrow> v)"

definition subscript :: "pydict \<Rightarrow> string \<Rightarrow> exn + string" where
  "subscript d k = (case map_of d k of None \<Rightarrow> Inl KeyError | Some v \<Rightarrow> Inr v)"

definition of_key :: "'a option \<Rightarrow> exn + 'a" where
  "of_key v = (case v of None \<Rightarrow> Inl KeyError | Some x \<Rightarrow> Inr x)"

text \<open>
  \<^verbatim>\<open>datetime.strptime\<close> with the formats \<^verbatim>\<open>%Y-%m-%d\<close> and \<^verbatim>\<open>%Y-%m-%d %H:%M:%S\<close>. The year is
  four digits; month, day, hour, minute and second are one or two digits within their range
  (the day may also be a space and a digit); the blank of the second format stands for one
  or more whitespace characters; the whole string must match, and the fields must form a
  date that exists. Every failure is a ValueError.
\<close>

definition number_field :: "int \<Rightarrow> int \<Rightarrow> string \<Rightarrow> bool" where
  "number_field lo hi tok =
     (length tok \<in> {1, 2} \<and> list_all isdigit tok \<and> lo \<le> int_of_digits tok \<and> int_of_digits tok \<le> hi)"

definition day_field :: "string \<Rightarrow> bool" where
  "day_field tok =
     (number_field 1 31 tok \<or> (length tok = 2 \<and> take 1 tok = '' '' \<and> number_field 1 9 (drop 1 tok)))"

definition strptime_ymd :: "string \<Rightarrow> exn + datetime" where
  "strptime_ymd s =
     (case split_on CHR ''-'' s of
        [y, m, d] \<Rightarrow>
          if length y = 4 \<and> list_all isdigit y \<and> number_field 1 12 m \<and> day_field d
          then datetime_ymd (int_of_digits y) (int_of_digits m) (int_of_digits (filter isdigit d))
          else Inl ValueError
      | _ \<Rightarrow> Inl ValueError)"

definition strptime_ymd_hms :: "string \<Rightarrow> exn + datetime" where
  "strptime_ymd_hms s =
     (case split_on CHR ''-'' s of
        [y, m, rest] \<Rightarrow>
          (let d = (if take 1 rest = '' '' then take 2 rest else takeWhile (\<lambda>c. \<not> isspace c) rest);
               gap = takeWhile isspace (drop (length d) rest);
               clock = dropWhile isspace (drop (length d) rest)
           in case split_on CHR '':'' clock of
                [hh, mm, ss] \<Rightarrow>
                  if length y = 4 \<and> list_all isdigit y \<and> number_field 1 12 m \<and> day_field d
                     \<and> gap \<noteq> [] \<and> number_field 0 23 hh \<and> number_field 0 59 mm \<and> number_field 0 61 ss
                  then datetime_hms (int_of_digits y) (int_of_digits m) (int_of_digits (filter isdigit d))
                         (int_of_digits hh) (int_of_digits mm) (int_of_digits ss)
                  else Inl ValueError
              | _ \<Rightarrow> Inl ValueError)
      | _ \<Rightarrow> Inl ValueError)"

text \<open>\<^verbatim>\<open>dt.strftime("%Y-%m-%d")\<close>, for a year of four digits.\<close>

definition strftime_ymd :: "datetime \<Rightarrow> string" where
  "strftime_ymd dt =
     (case ord2ymd (date_of dt) of
        (y, m, d) \<Rightarrow> zfill 4 (str_int y) @ ''-'' @ zfill 2 (str_int m) @ ''-'' @ zfill 2 (str_int d))"

section \<open>Articles\<close>

text \<open>The dictionary that \<^verbatim>\<open>search_articles\<close> builds for every record it keeps.\<close>

record article =
  date :: datetime
  color :: string
  html :: string
  query :: string

section \<open>Validity and colour policy\<close>

definition GREEN :: string where "GREEN = ''#92C353''"

definition YELLOW :: string where "YELLOW = ''#F2C94C''"

definition RED :: string where "RED = ''#E57373''"

text \<open>Every function that reads \<^verbatim>\<open>datetime.now()\<close> takes the reading as its first argument.\<close>

definition get_color_by_date :: "datetime \<Rightarrow> datetime option \<Rightarrow> string" where
  "get_color_by_date now dt =
     (case dt of
        None \<Rightarrow> RED
      | Some d \<Rightarrow>
          (let days_ago = days (now - d) in
           if days_ago \<le> 3 then GREEN
           else if days_ago \<le> 7 then YELLOW
           else RED))"

definition get_researchsquare_color :: "datetime \<Rightarrow> datetime \<Rightarrow> string" where
  "get_researchsquare_color now d =
     (let days_ago = days (now - d) in
      if days_ago \<le> 7 then ''#8FBC8F''
      else if days_ago \<le> 30 then ''#DEB887''
      else ''#CD5C5C'')"

text \<open>The three closures of \<^verbatim>\<open>search_articles\<close> take the variables they capture,
  \<^verbatim>\<open>current_date\<close> and \<^verbatim>\<open>max_future_date\<close>, as arguments.\<close>

definition max_future_date :: "datetime \<Rightarrow> int \<Rightarrow> datetime" where
  "max_future_date current_date max_future_months = current_date + timedelta (30 * max_future_months)"

definition is_valid_date :: "datetime \<Rightarrow> datetime \<Rightarrow> datetime \<Rightarrow> bool" where
  "is_valid_date current_date max_future d =
     (current_date - timedelta (365 * 5) \<le> d \<and> d \<le> max_future)"

definition get_pubmed_color :: "datetime \<Rightarrow> datetime \<Rightarrow> string" where
  "get_pubmed_color current_date d =
     (let days_ago = days (current_date - d) in
      if days_ago \<le> 7 then ''#2E8B57''
      else if days_ago \<le> 30 then ''#DAA520''
      else ''#B22222'')"

definition get_preprint_color :: "datetime \<Rightarrow> datetime \<Rightarrow> string" where
  "get_preprint_color current_date d =
     (let days_ago = days (current_date - d) in
      if days_ago \<le> 7 then ''#98FB98''
      else if days_ago \<le> 30 then ''#FAFAD2''
      else ''#FFA07A'')"

section \<open>Timeframe filter\<close>

text \<open>The timeframe is \<^verbatim>\<open>None\<close> or a string. \<^verbatim>\<open>today\<close> is a date, and a date minus
  \<^verbatim>\<open>timedelta(days=n)\<close> moves the ordinal by the days of the timedelta.\<close>

definition filter_articles_by_timeframe ::
  "datetime \<Rightarrow> ('a article_scheme) list \<Rightarrow> string option \<Rightarrow> ('a article_scheme) list" where
  "filter_articles_by_timeframe now articles timeframe =
     (let today = date_of now;
          start_date =
            (if timeframe = Some ''today'' then Some today
             else if timeframe = Some ''week'' then Some (today - days (timedelta 7))
             else if timeframe = Some ''month'' then Some (today - days (timedelta 30))
             else None)
      in case start_date of
           None \<Rightarrow> articles
         | Some start \<Rightarrow> filter (\<lambda>a. start \<le> date_of (date a)) articles)"

section \<open>Raw records\<close>

text \<open>
  The parsed payloads of the three sources, with the fields that the script reads. A field
  is optional where the script allows for its absence or where its absence raises; the
  values of the fields are of the types that the sources document (strings, lists of
  objects). An entry of a citation record's history is a dictionary or something else
  (\<^verbatim>\<open>isinstance(date, dict)\<close>); an identifier carries its type attribute and its text.
\<close>

datatype history_entry = Dict pydict | NotDict

record article_id =
  IdType :: "string option"
  id_text :: string

record article_fields =
  ArticleTitle :: "string option"
  AuthorList :: "pydict list option"
  Journal :: "pydict option"

record medline_citation =
  Article :: "article_fields option"
  PMID :: "string option"

record pubmed_data =
  History :: "history_entry list option"
  ArticleIdList :: "article_id list option"

record pubmed_paper =
  PubmedData :: "pubmed_data option"
  MedlineCitation :: "medline_citation option"

record preprint_paper =
  pp_fields :: pydict
  pp_authors :: "pydict list option"

type_synonym researchsquare_paper = pydict

text \<open>What the four requests return: the parts that \<^verbatim>\<open>search_articles\<close> subscripts.\<close>

record esearchresult_payload =
  idlist :: "string list option"

record esearch_payload =
  esearchresult :: "esearchresult_payload option"

record efetch_payload =
  PubmedArticle :: "pubmed_paper list option"

record preprint_payload =
  collection :: "preprint_paper list option"

record researchsquare_result =
  rs_data :: "researchsquare_paper list option"

record researchsquare_payload =
  rs_result :: "researchsquare_result option"

section \<open>Source adapters\<close>

text \<open>
  The request to the citation source is an opaque call to the outside world: what the
  \<open>k\<close>-th call of a run returns or raises is given by an oracle, a function of the request's
  arguments and of the attempt \<open>k\<close> (the loop variable \<^verbatim>\<open>attempt\<close>, counted from 0). The run
  is traced: a \<open>Request\<close> for every call of the oracle and a \<open>Sleep\<close> for every
  \<^verbatim>\<open>time.sleep(delay)\<close>, which raises ValueError on a negative delay. The loop ends with the
  function's final \<^verbatim>\<open>raise Exception("Max retries reached...")\<close> when \<^verbatim>\<open>range(max_retries)\<close> is
  exhausted. The diagnostic global \<^verbatim>\<open>pubmed_api_link\<close> is written and never read by the
  pipeline; it is left out.
\<close>

datatype 'a response = Returns 'a | Raises exn

datatype event = Request nat | Sleep int

fun retry_loop :: "(nat \<Rightarrow> 'a response) \<Rightarrow> int \<Rightarrow> nat list \<Rightarrow> int \<Rightarrow> (exn + 'a) \<times> event list" where
  "retry_loop request max_retries [] delay = (Inl MaxRetriesReached, [])"
| "retry_loop request max_retries (attempt # rest) delay =
     (case request attempt of
        Returns results \<Rightarrow> (Inr results, [Request attempt])
      | Raises (HTTPError code) \<Rightarrow>
          if code = 500 \<and> int attempt < max_retries - 1 then
            if delay < 0 then (Inl ValueError, [Request attempt])
            else
              (let (r, events) = retry_loop request max_retries rest (delay * 2)
               in (r, Request attempt # Sleep delay # events))
          else (Inl (HTTPError code), [Request attempt])
      | Raises e \<Rightarrow> (Inl e, [Request attempt]))"

definition search_pubmed ::
  "(string \<Rightarrow> int \<Rightarrow> int \<Rightarrow> nat \<Rightarrow> 'a response) \<Rightarrow> string \<Rightarrow> int \<Rightarrow> int \<Rightarrow> int \<Rightarrow> int
     \<Rightarrow> (exn + 'a) \<times> event list" where
  "search_pubmed esearch qry page results_per_page max_retries initial_delay =
     (let start = (page - 1) * results_per_page;
          delay = initial_delay
      in retry_loop (esearch qry results_per_page start) max_retries [0..<nat max_retries] delay)"

text \<open>\<^verbatim>\<open>fetch_pubmed_details\<close> runs the same loop on the request for the details.\<close>

definition fetch_pubmed_details ::
  "(string \<Rightarrow> nat \<Rightarrow> 'a response) \<Rightarrow> string list \<Rightarrow> int \<Rightarrow> int \<Rightarrow> (exn + 'a) \<times> event list" where
  "fetch_pubmed_details efetch id_list max_retries initial_delay =
     (let ids = join '','' id_list;
          delay = initial_delay
      in retry_loop (efetch ids) max_retries [0..<nat max_retries] delay)"

text \<open>
  The outside world during one call of \<^verbatim>\<open>search_articles\<close>: what the four requests return or
  raise, as functions of the arguments of the request (and of the attempt, for the two
  requests that are retried), and the readings of \<^verbatim>\<open>datetime.now()\<close>, of which \<open>w_clock w k\<close>
  is the one with number \<open>k\<close> in the order in which the call reads them.
\<close>

record world =
  w_esearch :: "string \<Rightarrow> int \<Rightarrow> int \<Rightarrow> nat \<Rightarrow> esearch_payload response"
  w_efetch :: "string \<Rightarrow> nat \<Rightarrow> efetch_payload response"
  w_biorxiv :: "int \<Rightarrow> int \<Rightarrow> string \<Rightarrow> preprint_payload response"
  w_researchsquare :: "string \<Rightarrow> int \<Rightarrow> int \<Rightarrow> string \<Rightarrow> string \<Rightarrow> researchsquare_payload response"
  w_clock :: "nat \<Rightarrow> datetime"

text \<open>
  The two adapters without retry. \<^verbatim>\<open>search_researchsquare\<close> reads the clock twice for the
  bounds of its request; its parameter \<^verbatim>\<open>timeframe\<close> is not used by the function and is left
  out. The diagnostic globals are left out as for the citation source.
\<close>

definition of_response :: "'a response \<Rightarrow> exn + 'a" where
  "of_response r = (case r of Returns x \<Rightarrow> Inr x | Raises e \<Rightarrow> Inl e)"

definition search_preprints :: "world \<Rightarrow> string \<Rightarrow> int \<Rightarrow> int \<Rightarrow> exn + preprint_payload" where
  "search_preprints w qry page results_per_page =
     (let start = (page - 1) * results_per_page
      in of_response (w_biorxiv w start results_per_page qry))"

definition search_researchsquare :: "world \<Rightarrow> string \<Rightarrow> int \<Rightarrow> int \<Rightarrow> exn + researchsquare_payload" where
  "search_researchsquare w qry page results_per_page =
     (let end_date = strftime_ymd (w_clock w 0 + timedelta 1);
          start_date = strftime_ymd (w_clock w 1 - timedelta 30)
      in of_response
           (w_researchsquare w qry results_per_page ((page - 1) * results_per_page) start_date end_date))"

section \<open>Record normaliser\<close>

text \<open>
  The date of a citation record. \<open>entry_datetime\<close> is
  \<^verbatim>\<open>datetime(int(date['Year']), int(date['Month']), int(date['Day']))\<close>; \<open>pubmed_status_date\<close>
  is the loop that stops at the first dictionary entry whose \<^verbatim>\<open>PubStatus\<close> is \<^verbatim>\<open>pubmed\<close>;
  \<open>history_datetimes\<close> is the generator over all dictionary entries, which \<^verbatim>\<open>max\<close> consumes
  and which raises ValueError when it yields nothing.
\<close>

definition entry_datetime :: "pydict \<Rightarrow> exn + datetime" where
  "entry_datetime d =
     bind_exn (subscript d ''Year'') (\<lambda>y. bind_exn (py_int y) (\<lambda>year.
     bind_exn (subscript d ''Month'') (\<lambda>m. bind_exn (py_int m) (\<lambda>month.
     bind_exn (subscript d ''Day'') (\<lambda>d'. bind_exn (py_int d') (\<lambda>day.
       datetime_ymd year month day))))))"

fun pubmed_status_date :: "history_entry list \<Rightarrow> exn + datetime option" where
  "pubmed_status_date [] = Inr None"
| "pubmed_status_date (Dict d # dates) =
     (if map_of d ''PubStatus'' = Some ''pubmed''
      then bind_exn (entry_datetime d) (\<lambda>online_date. Inr (Some online_date))
      else pubmed_status_date dates)"
| "pubmed_status_date (NotDict # dates) = pubmed_status_date dates"

fun history_datetimes :: "history_entry list \<Rightarrow> exn + datetime list" where
  "history_datetimes [] = Inr []"
| "history_datetimes (Dict d # dates) =
     bind_exn (entry_datetime d) (\<lambda>x. bind_exn (history_datetimes dates) (\<lambda>xs. Inr (x # xs)))"
| "history_datetimes (NotDict # dates) = history_datetimes dates"

definition max_history_date :: "history_entry list \<Rightarrow> exn + datetime" where
  "max_history_date dates =
     bind_exn (history_datetimes dates)
       (\<lambda>xs. case xs of [] \<Rightarrow> Inl ValueError | x # rest \<Rightarrow> Inr (foldl max x rest))"

definition online_date :: "history_entry list \<Rightarrow> exn + datetime" where
  "online_date dates =
     bind_exn (pubmed_status_date dates)
       (\<lambda>found. case found of Some d \<Rightarrow> Inr d | None \<Rightarrow> max_history_date dates)"

text \<open>The rendered fragments, character by character as the f-strings of the script build them.\<close>

definition pubmed_html ::
  "string \<Rightarrow> string \<Rightarrow> string \<Rightarrow> string \<Rightarrow> string \<Rightarrow> string \<Rightarrow> string \<Rightarrow> string" where
  \<open>pubmed_html color' title authors journal date_str pmid doi_link =
     ''\<newline>                <div style="margin-bottom: 20px; padding: 10px; background-color: '' @ color' @ '';">\<newline>                    <h3>'' @ title @ ''</h3>\<newline>                    <p><strong>Authors:</strong> '' @ authors @ ''</p>\<newline>                    <p><strong>Journal:</strong> '' @ journal @ ''</p>\<newline>                    <p><strong>Date:</strong> '' @ date_str @ ''</p>\<newline>                    <p><strong>PMID:</strong> '' @ pmid @ ''</p>\<newline>                    <p><strong>DOI:</strong> '' @ doi_link @ ''</p>\<newline>                </div>\<newline>                ''\<close>

definition preprint_html ::
  "string \<Rightarrow> string \<Rightarrow> string \<Rightarrow> string \<Rightarrow> string \<Rightarrow> string \<Rightarrow> string" where
  \<open>preprint_html color' title authors server date_str doi_link =
     ''\<newline>                <div style="margin-bottom: 20px; padding: 10px; background-color: '' @ color' @ '';">\<newline>                    <h3>'' @ title @ ''</h3>\<newline>                    <p><strong>Authors:</strong> '' @ authors @ ''</p>\<newline>                    <p><strong>Server:</strong> '' @ server @ ''</p>\<newline>                    <p><strong>Date:</strong> '' @ date_str @ ''</p>\<newline>                    <p><strong>DOI:</strong> '' @ doi_link @ ''</p>\<newline>                </div>\<newline>                ''\<close>

definition researchsquare_html :: "string \<Rightarrow> string \<Rightarrow> string \<Rightarrow> string \<Rightarrow> string \<Rightarrow> string" where
  \<open>researchsquare_html color' title authors date_str rs_link =
     ''\<newline>                <div style="margin-bottom: 20px; padding: 10px; background-color: '' @ color' @ '';">\<newline>                    <h3>'' @ title @ ''</h3>\<newline>                    <p><strong>Authors:</strong> '' @ authors @ ''</p>\<newline>                    <p><strong>Server:</strong> ResearchSquare</p>\<newline>                    <p><strong>Date:</strong> '' @ date_str @ ''</p>\<newline>                    <p><strong>Link:</strong> '' @ rs_link @ ''</p>\<newline>                </div>\<newline>                ''\<close>

definition doi_anchor :: "string \<Rightarrow> string" where
  \<open>doi_anchor doi = ''<a href="https://doi.org/'' @ doi @ ''" target="_blank">'' @ doi @ ''</a>''\<close>

text \<open>
  The bodies of the three loops over the raw records of a source. Each returns the
  exception that the body raises, \<open>Inr None\<close> when the body reaches \<^verbatim>\<open>continue\<close> (no history,
  or a date outside the validity window), or the article that it appends. The body for the
  preprint server takes the reading of the clock that its colour function makes.
\<close>

definition pubmed_article :: "datetime \<Rightarrow> datetime \<Rightarrow> string \<Rightarrow> pubmed_paper \<Rightarrow> exn + article option" where
  "pubmed_article current_date max_future qry paper =
     (case (case PubmedData paper of None \<Rightarrow> None | Some pd \<Rightarrow> History pd) of
        None \<Rightarrow> Inr None
      | Some dates \<Rightarrow>
          bind_exn (online_date dates) (\<lambda>online_date.
            if \<not> is_valid_date current_date max_future online_date then Inr None
            else
              (let color' = get_pubmed_color current_date online_date;
                   fields = (case MedlineCitation paper of
                               None \<Rightarrow> None | Some mc \<Rightarrow> Article mc);
                   title = (case fields of None \<Rightarrow> ''No Title Available''
                            | Some f \<Rightarrow> (case ArticleTitle f of None \<Rightarrow> ''No Title Available'' | Some t \<Rightarrow> t));
                   author_list = (case fields of None \<Rightarrow> []
                            | Some f \<Rightarrow> (case AuthorList f of None \<Rightarrow> [] | Some l \<Rightarrow> l));
                   authors = join '', '' (map (\<lambda>author. get author ''LastName'' [] @ '' '' @ get author ''Initials'' [])
                                            (take 3 author_list))
                             @ (if 3 < length author_list then '' et al.'' else []);
                   journal = (case fields of None \<Rightarrow> ''Unknown Journal''
                            | Some f \<Rightarrow> (case Journal f of None \<Rightarrow> ''Unknown Journal''
                                         | Some j \<Rightarrow> get j ''Title'' ''Unknown Journal''));
                   pmid = (case MedlineCitation paper of None \<Rightarrow> ''Unknown PMID''
                           | Some mc \<Rightarrow> (case PMID mc of None \<Rightarrow> ''Unknown PMID'' | Some p \<Rightarrow> p));
                   article_id_list = (case PubmedData paper of None \<Rightarrow> []
                           | Some pd \<Rightarrow> (case ArticleIdList pd of None \<Rightarrow> [] | Some l \<Rightarrow> l));
                   doi = find (\<lambda>id_obj. IdType id_obj = Some ''doi'') article_id_list;
                   doi_link = (case doi of
                                 None \<Rightarrow> ''Not available''
                               | Some id_obj \<Rightarrow> if id_text id_obj \<noteq> [] then doi_anchor (id_text id_obj)
                                               else ''Not available'');
                   date_str = strftime_ymd online_date
               in Inr (Some \<lparr>date = online_date, color = color',
                             html = pubmed_html color' title authors journal date_str pmid doi_link,
                             query = qry\<rparr>))))"

definition preprint_article :: "datetime \<Rightarrow> datetime \<Rightarrow> string \<Rightarrow> preprint_paper \<Rightarrow> exn + article option" where
  "preprint_article current_date max_future qry paper =
     bind_exn (subscript (pp_fields paper) ''date'') (\<lambda>date_text.
     bind_exn (strptime_ymd date_text) (\<lambda>date_posted.
       if \<not> is_valid_date current_date max_future date_posted then Inr None
       else
         (let color' = get_preprint_color current_date date_posted;
              title = get (pp_fields paper) ''title'' ''No Title Available'';
              author_list = (case pp_authors paper of None \<Rightarrow> [] | Some l \<Rightarrow> l);
              authors = join '', '' (map (\<lambda>author. get author ''name'' ''Unknown Author'') (take 3 author_list))
                        @ (if 3 < length author_list then '' et al.'' else []);
              server = get (pp_fields paper) ''server'' ''Unknown Server'';
              doi = get (pp_fields paper) ''doi'' [];
              doi_link = (if doi \<noteq> [] then doi_anchor doi else ''Not available'');
              date_str = strftime_ymd date_posted
          in Inr (Some \<lparr>date = date_posted, color = color',
                        html = preprint_html color' title authors server date_str doi_link,
                        query = qry\<rparr>))))"

definition researchsquare_article ::
  "datetime \<Rightarrow> datetime \<Rightarrow> datetime \<Rightarrow> string \<Rightarrow> researchsquare_paper \<Rightarrow> exn + article option" where
  \<open>researchsquare_article current_date max_future now qry paper =
     bind_exn (subscript paper ''posted_at'') (\<lambda>posted_at.
     bind_exn (strptime_ymd_hms posted_at) (\<lambda>date_posted.
       if \<not> is_valid_date current_date max_future date_posted then Inr None
       else
         (let color' = get_researchsquare_color now date_posted;
              title = get paper ''title'' ''No Title Available'';
              pieces = split_on CHR '','' (get paper ''authors'' []);
              authors = join '', '' (map strip (take 3 pieces))
                        @ (if 3 < length pieces then '' et al.'' else []);
              article_identity = get paper ''article_identity'' [];
              doi_version = get paper ''doi_version'' ''1'';
              rs_link = ''<a href="https://www.researchsquare.com/article/'' @ article_identity
                        @ ''/v'' @ doi_version @ ''" target="_blank">ResearchSquare Link</a>'';
              date_str = strftime_ymd date_posted
          in Inr (Some \<lparr>date = date_posted, color = color',
                        html = researchsquare_html color' title authors date_str rs_link,
                        query = qry\<rparr>))))\<close>

text \<open>
  The three loops: \<^verbatim>\<open>except Exception: continue\<close> drops the record whose body raised and goes
  on with the next one. The loop over the preprint server's records counts the readings of
  the clock.
\<close>

fun process_pubmed ::
  "datetime \<Rightarrow> datetime \<Rightarrow> string \<Rightarrow> pubmed_paper list \<Rightarrow> article list \<Rightarrow> article list" where
  "process_pubmed current_date max_future qry [] all_articles = all_articles"
| "process_pubmed current_date max_future qry (paper # papers) all_articles =
     (case pubmed_article current_date max_future qry paper of
        Inr (Some a) \<Rightarrow> process_pubmed current_date max_future qry papers (all_articles @ [a])
      | Inr None \<Rightarrow> process_pubmed current_date max_future qry papers all_articles
      | Inl e \<Rightarrow> process_pubmed current_date max_future qry papers all_articles)"

fun process_preprints ::
  "datetime \<Rightarrow> datetime \<Rightarrow> string \<Rightarrow> preprint_paper list \<Rightarrow> article list \<Rightarrow> article list" where
  "process_preprints current_date max_future qry [] all_articles = all_articles"
| "process_preprints current_date max_future qry (paper # papers) all_articles =
     (case preprint_article current_date max_future qry paper of
        Inr (Some a) \<Rightarrow> process_preprints current_date max_future qry papers (all_articles @ [a])
      | Inr None \<Rightarrow> process_preprints current_date max_future qry papers all_articles
      | Inl e \<Rightarrow> process_preprints current_date max_future qry papers all_articles)"

fun process_researchsquare ::
  "datetime \<Rightarrow> datetime \<Rightarrow> (nat \<Rightarrow> datetime) \<Rightarrow> string \<Rightarrow> researchsquare_paper list
     \<Rightarrow> article list \<times> nat \<Rightarrow> article list \<times> nat" where
  "process_researchsquare current_date max_future clock qry [] (all_articles, k) = (all_articles, k)"
| "process_researchsquare current_date max_future clock qry (paper # papers) (all_articles, k) =
     (case researchsquare_article current_date max_future (clock k) qry paper of
        Inr (Some a) \<Rightarrow>
          process_researchsquare current_date max_future clock qry papers (all_articles @ [a], Suc k)
      | Inr None \<Rightarrow> process_researchsquare current_date max_future clock qry papers (all_articles, k)
      | Inl e \<Rightarrow> process_researchsquare current_date max_future clock qry papers (all_articles, k))"

section \<open>Single-query pipeline\<close>

text \<open>
  \<^verbatim>\<open>search_articles\<close>: the four requests, of which each may raise and end the call, the
  reading of \<^verbatim>\<open>current_date\<close> (the third reading of the clock, after the two of the
  preprint server's request), the three loops, and the timeframe filter when the timeframe
  is neither \<^verbatim>\<open>None\<close> nor empty.
\<close>

definition search_articles ::
  "world \<Rightarrow> string \<Rightarrow> int \<Rightarrow> int \<Rightarrow> string option \<Rightarrow> int \<Rightarrow> exn + article list" where
  "search_articles w qry page results_per_page timeframe max_future_months =
     bind_exn (fst (search_pubmed (w_esearch w) qry page results_per_page 3 1)) (\<lambda>pubmed_results.
     bind_exn (of_key (esearchresult pubmed_results)) (\<lambda>inner.
     bind_exn (of_key (idlist inner)) (\<lambda>ids.
     bind_exn (fst (fetch_pubmed_details (w_efetch w) ids 3 1)) (\<lambda>pubmed_papers.
     bind_exn (search_preprints w qry page results_per_page) (\<lambda>preprint_results.
     bind_exn (search_researchsquare w qry page results_per_page) (\<lambda>researchsquare_results.
       (let current_date = w_clock w 2;
            max_future = max_future_date current_date max_future_months
        in
     bind_exn (of_key (PubmedArticle pubmed_papers)) (\<lambda>papers.
       (let all_articles = process_pubmed current_date max_future qry papers []
        in
     bind_exn (of_key (collection preprint_results)) (\<lambda>preprints.
       (let all_articles = process_preprints current_date max_future qry preprints all_articles
        in
     bind_exn (of_key (rs_result researchsquare_results)) (\<lambda>res.
     bind_exn (of_key (rs_data res)) (\<lambda>rs_papers.
       (case process_researchsquare current_date max_future (w_clock w) qry rs_papers (all_articles, 3) of
          (all_articles, k) \<Rightarrow>
            Inr (if timeframe \<noteq> None \<and> timeframe \<noteq> Some []
                 then filter_articles_by_timeframe (w_clock w k) all_articles timeframe
                 else all_articles)))))))))))))))"

section \<open>Cross-query merger\<close>

text \<open>
  \<^verbatim>\<open>combine_and_display_results\<close> adds the key \<^verbatim>\<open>queries\<close> to the dictionary of a result when
  it stores it. The dictionary \<^verbatim>\<open>seen_titles\<close> keeps its keys in the order of their first
  insertion: it is an association list, \<^verbatim>\<open>seen_titles[title] = result\<close> is \<open>AList.update\<close>
  (in place for a key that is present, at the end for a new one) and the append to the
  stored article's list is \<open>AList.map_entry\<close>.
\<close>

record merged_article = article +
  queries :: "string list"

type_synonym seen_titles = "(string \<times> merged_article) list"

definition extract_title :: "string \<Rightarrow> string" where
  "extract_title h =
     (let title_start = str_find h ''<h3>'' + 4;
          title_end = str_find h ''</h3>''
      in strip (slice h title_start title_end))"

definition merge_result :: "string \<Rightarrow> seen_titles \<Rightarrow> article \<Rightarrow> seen_titles" where
  "merge_result qry seen result =
     (let title = extract_title (html result) in
      if map_of seen title \<noteq> None
      then AList.map_entry title (\<lambda>stored. stored\<lparr>queries := queries stored @ [qry]\<rparr>) seen
      else AList.update title (article.extend result (merged_article.fields [qry])) seen)"

text \<open>
  The loop over the queries. What the call of \<^verbatim>\<open>search_articles\<close> for the query at position
  \<open>i\<close> returns or raises is the parameter \<open>search\<close>; an exception of the call leaves
  \<^verbatim>\<open>combine_and_display_results\<close>.
\<close>

fun query_loop ::
  "(nat \<Rightarrow> string \<Rightarrow> exn + article list) \<Rightarrow> nat \<Rightarrow> string list \<Rightarrow> seen_titles \<Rightarrow> exn + seen_titles" where
  "query_loop search i [] seen = Inr seen"
| "query_loop search i (qry # rest) seen =
     (case search i qry of
        Inl e \<Rightarrow> Inl e
      | Inr results \<Rightarrow> query_loop search (Suc i) rest (foldl (merge_result qry) seen results))"

text \<open>
  \<^verbatim>\<open>list.sort(key=..., reverse=True)\<close>: the list is reversed, sorted by a stable sort into
  ascending order of the keys, and reversed again.
\<close>

definition sort_reverse :: "('a \<Rightarrow> 'k::linorder) \<Rightarrow> 'a list \<Rightarrow> 'a list" where
  "sort_reverse key xs = rev (sort_key key (rev xs))"

text \<open>The list \<^verbatim>\<open>all_results\<close> after the sort, which the report then renders in this order.\<close>

definition all_results :: "(nat \<Rightarrow> string \<Rightarrow> exn + article list) \<Rightarrow> string list \<Rightarrow> exn + merged_article list" where
  "all_results search qs =
     (case query_loop search 0 qs [] of
        Inl e \<Rightarrow> Inl e
      | Inr seen \<Rightarrow> Inr (sort_reverse date (map snd seen)))"

text \<open>
  The report, the list of merged articles of a run in a world for every call of
  \<^verbatim>\<open>search_articles\<close>, and \<^verbatim>\<open>combine_and_display_results\<close>, which returns the document that
  it displays.
\<close>

definition html_output :: "string list \<Rightarrow> merged_article list \<Rightarrow> int \<Rightarrow> string option \<Rightarrow> string" where
  \<open>html_output qs results page timeframe =
     ''\<newline>    <h3>Search terms: '' @ join '', '' qs @ ''</h3>\<newline>    <p>''
       @ str_int (int (length results)) @ '' total results</p>\<newline>    <p>Page '' @ str_int page
       @ ''</p>\<newline>    <p>Timeframe: ''
       @ (case timeframe of None \<Rightarrow> ''All time'' | Some t \<Rightarrow> if t \<noteq> [] then t else ''All time'')
       @ ''</p>\<newline>    ''
     @ concat (map (\<lambda>a.
         ''\<newline>        <div style="margin-bottom: 20px; padding: 10px; background-color: '' @ color a
           @ '';">\<newline>            '' @ html a
           @ ''\<newline>            <p><strong>Matching Queries:</strong> '' @ join '', '' (queries a)
           @ ''</p>\<newline>        </div>\<newline>        '') results)\<close>

definition merged_results ::
  "(nat \<Rightarrow> world) \<Rightarrow> string list \<Rightarrow> int \<Rightarrow> int \<Rightarrow> string option \<Rightarrow> int \<Rightarrow> exn + merged_article list" where
  "merged_results worlds qs page results_per_page timeframe max_future_months =
     all_results (\<lambda>i qry. search_articles (worlds i) qry page results_per_page timeframe max_future_months) qs"

definition combine_and_display_results ::
  "(nat \<Rightarrow> world) \<Rightarrow> string list \<Rightarrow> int \<Rightarrow> int \<Rightarrow> string option \<Rightarrow> int \<Rightarrow> exn + string" where
  "combine_and_display_results worlds qs page results_per_page timeframe max_future_months =
     bind_exn (merged_results worlds qs page results_per_page timeframe max_future_months)
       (\<lambda>results. Inr (html_output qs results page timeframe))"

section \<open>Notions used in the statements\<close>

text \<open>The number of requests in a trace, and the trace of a run of \<open>n\<close> attempts from
  attempt \<open>i\<close> on in which every attempt but the first comes after a sleep of twice the
  sleep before.\<close>

fun is_Request :: "event \<Rightarrow> bool" where
  "is_Request (Request k) = True"
| "is_Request (Sleep d) = False"

definition attempts :: "event list \<Rightarrow> nat" where
  "attempts events = length (filter is_Request events)"

definition backoff_trace :: "nat \<Rightarrow> int \<Rightarrow> nat \<Rightarrow> event list" where
  "backoff_trace i delay n =
     concat (map (\<lambda>k. if k = i then [Request k] else [Sleep (delay * 2 ^ (k - i - 1)), Request k]) [i..<i + n])"

text \<open>
  For the statements below: the results of all queries with their query, in the order in
  which the two loops visit them; the title extracted from an article's fragment; the merge
  of a list of occurrences into the dictionary; the article stored for a list of occurrences
  of one title; and the order of first appearance of the elements of a list.
\<close>

definition occurrences :: "string list \<Rightarrow> article list list \<Rightarrow> (string \<times> article) list" where
  "occurrences qs rs = concat (map (\<lambda>(q, results). map (Pair q) results) (zip qs rs))"

definition title_of :: "'a article_scheme \<Rightarrow> string" where
  "title_of a = extract_title (html a)"

definition merge_occurrences :: "seen_titles \<Rightarrow> (string \<times> article) list \<Rightarrow> seen_titles" where
  "merge_occurrences seen occ = foldl (\<lambda>s (q, r). merge_result q s r) seen occ"

definition first_stored :: "(string \<times> article) list \<Rightarrow> merged_article option" where
  "first_stored occ =
     (case occ of
        [] \<Rightarrow> None
      | (q, r) # rest \<Rightarrow> Some (article.extend r (merged_article.fields (q # map fst rest))))"

definition keyed_by_title :: "seen_titles \<Rightarrow> bool" where
  "keyed_by_title seen = (distinct (map fst seen) \<and> list_all (\<lambda>(t, a). title_of a = t) seen)"

definition first_seen_order :: "'a list \<Rightarrow> 'a list" where
  "first_seen_order xs = rev (remdups (rev xs))"

text \<open>The article that a loop keeps of the outcome of its body.\<close>

definition kept :: "exn + 'a option \<Rightarrow> 'a option" where
  "kept r = (case r of Inr (Some a) \<Rightarrow> Some a | _ \<Rightarrow> None)"

section \<open>Example values\<close>

text \<open>Noon of 2024-06-15, and midnight of the day after.\<close>

definition noon_2024_06_15 :: datetime where
  "noon_2024_06_15 = ymd2ord 2024 6 15 * DAY + 12 * 3600 * 1000000"

definition article_tomorrow :: article where
  "article_tomorrow =
     \<lparr>date = ymd2ord 2024 6 16 * DAY, color = ''#98FB98'', html = ''<h3>T</h3>'', query = ''q''\<rparr>"

text \<open>A citation source that answers with a server error twice and then succeeds.\<close>

definition flaky_esearch :: "string \<Rightarrow> int \<Rightarrow> int \<Rightarrow> nat \<Rightarrow> string list response" where
  "flaky_esearch term retmax retstart attempt =
     (if attempt < 2 then Raises (HTTPError 500) else Returns [''38000001''])"

text \<open>A citation source that answers every request with an error that is not retried.\<close>

definition not_found_esearch :: "string \<Rightarrow> int \<Rightarrow> int \<Rightarrow> nat \<Rightarrow> string list response" where
  "not_found_esearch term retmax retstart attempt = Raises (HTTPError 404)"

text \<open>Two queries with three results, of which the first and the last have the same title.\<close>

definition alpha_covid :: article where
  "alpha_covid = \<lparr>date = 100, color = ''#B22222'', html = ''<h3>Alpha</h3>'', query = ''covid''\<rparr>"

definition beta_covid :: article where
  "beta_covid = \<lparr>date = 200, color = ''#DAA520'', html = ''<h3>Beta</h3>'', query = ''covid''\<rparr>"

definition alpha_long_covid :: article where
  "alpha_long_covid =
     \<lparr>date = 300, color = ''#2E8B57'', html = ''<div><h3> Alpha </h3></div>'', query = ''long covid''\<rparr>"

definition demo_queries :: "string list" where
  "demo_queries = [''covid'', ''long covid'']"

definition demo_results :: "article list list" where
  "demo_results = [[alpha_covid, beta_covid], [alpha_long_covid]]"

definition demo_search :: "nat \<Rightarrow> string \<Rightarrow> exn + article list" where
  "demo_search i qry = (if i = 0 then Inr [alpha_covid, beta_covid] else Inr [alpha_long_covid])"

text \<open>One query with three results, of which the first two have the same date.\<close>

definition tie_first :: article where
  "tie_first = \<lparr>date = 5, color = ''#B22222'', html = ''<h3>First</h3>'', query = ''covid''\<rparr>"

definition tie_second :: article where
  "tie_second = \<lparr>date = 5, color = ''#B22222'', html = ''<h3>Second</h3>'', query = ''covid''\<rparr>"

definition tie_newer :: article where
  "tie_newer = \<lparr>date = 9, color = ''#B22222'', html = ''<h3>Newer</h3>'', query = ''covid''\<rparr>"

definition tie_search :: "nat \<Rightarrow> string \<Rightarrow> exn + article list" where
  "tie_search i qry = Inr [tie_first, tie_second, tie_newer]"

text \<open>
  Three records of the preprint aggregator, dated inside the validity window of the example,
  with a date that does not parse, and dated before the window; a citation record with two
  history entries; and a world that returns them to every query.
\<close>

definition recent_preprint :: preprint_paper where
  "recent_preprint =
     \<lparr>pp_fields = [(''date'', ''2024-06-10''), (''title'', ''A Title'')], pp_authors = None\<rparr>"

definition bad_date_preprint :: preprint_paper where
  "bad_date_preprint =
     \<lparr>pp_fields = [(''date'', ''June 2024''), (''title'', ''Bad date'')], pp_authors = None\<rparr>"

definition old_preprint :: preprint_paper where
  "old_preprint =
     \<lparr>pp_fields = [(''date'', ''2010-01-01''), (''title'', ''Old'')], pp_authors = None\<rparr>"

definition published_entry :: pydict where
  "published_entry = [(''PubStatus'', ''published''), (''Year'', ''2024''), (''Month'', ''6''), (''Day'', ''10'')]"

definition pubmed_entry :: pydict where
  "pubmed_entry = [(''PubStatus'', ''pubmed''), (''Year'', ''2024''), (''Month'', ''6''), (''Day'', ''1'')]"

text \<open>A history entry without a year, and one dated before the validity window.\<close>

definition no_year_entry :: pydict where
  "no_year_entry = [(''PubStatus'', ''pubmed''), (''Month'', ''6''), (''Day'', ''1'')]"

definition old_entry :: pydict where
  "old_entry = [(''PubStatus'', ''pubmed''), (''Year'', ''2010''), (''Month'', ''1''), (''Day'', ''1'')]"

definition published_and_pubmed :: pubmed_paper where
  "published_and_pubmed =
     \<lparr>PubmedData = Some \<lparr>History = Some [Dict published_entry, Dict pubmed_entry], ArticleIdList = None\<rparr>,
      MedlineCitation = None\<rparr>"

text \<open>A citation record whose only history entry has no year, and two records of the preprint
  server, of which the second has no date.\<close>

definition no_year_paper :: pubmed_paper where
  "no_year_paper =
     \<lparr>PubmedData = Some \<lparr>History = Some [Dict no_year_entry], ArticleIdList = None\<rparr>,
      MedlineCitation = None\<rparr>"

definition recent_researchsquare :: researchsquare_paper where
  "recent_researchsquare = [(''posted_at'', ''2024-06-10 10:00:00''), (''title'', ''A Title'')]"

definition undated_researchsquare :: researchsquare_paper where
  "undated_researchsquare = [(''title'', ''No date'')]"

definition demo_world :: world where
  "demo_world =
     \<lparr>w_esearch = (\<lambda>term retmax retstart attempt. Returns \<lparr>esearchresult = Some \<lparr>idlist = Some [''1'']\<rparr>\<rparr>),
      w_efetch = (\<lambda>ids attempt. Returns \<lparr>PubmedArticle = Some [published_and_pubmed]\<rparr>),
      w_biorxiv = (\<lambda>start limit text. Returns \<lparr>collection = Some
         [recent_preprint, bad_date_preprint, old_preprint]\<rparr>),
      w_researchsquare = (\<lambda>unified limit offset postedAfter postedBefore.
         Returns \<lparr>rs_result = Some \<lparr>rs_data = Some []\<rparr>\<rparr>),
      w_clock = (\<lambda>k. noon_2024_06_15)\<rparr>"

section \<open>Properties of the validity and colour policy\<close>

lemma DAY_pos: "0 < DAY"
  by (simp add: DAY_def)

lemma le_div_DAY: "(s \<le> x div DAY) = (s * DAY \<le> x)"
proof
  assume "s \<le> x div DAY"
  then have "s * DAY \<le> (x div DAY) * DAY"
    using DAY_pos by (simp add: mult_right_mono)
  also have "\<dots> \<le> x"
    using DAY_pos by (metis div_mult_mod_eq le_add_same_cancel1 pos_mod_sign)
  finally show "s * DAY \<le> x" .
next
  assume "s * DAY \<le> x"
  then have "(s * DAY) div DAY \<le> x div DAY"
    using DAY_pos by (rule zdiv_mono1)
  then show "s \<le> x div DAY"
    using DAY_pos by simp
qed

lemma days_le_iff: "(days td \<le> n) = (td < (n + 1) * DAY)"
  using le_div_DAY [of "n + 1" td] by (simp add: days_def) linarith

lemma days_timedelta: "days (timedelta n) = n"
  by (simp add: days_def timedelta_def DAY_def)

text \<open>
  C4. The validity predicate of \<^verbatim>\<open>search_articles\<close>, with the future bound that the
  function computes from \<^verbatim>\<open>max_future_months\<close>, holds of a date exactly when the date lies
  between now minus five years (the code's \<^verbatim>\<open>timedelta(days=365*5)\<close>, 1825 days) and now plus
  \<^verbatim>\<open>30 * max_future_months\<close> days. Both ends are inclusive: the two bounds themselves are
  valid whenever the window is not empty, and one microsecond beyond either bound is not.
\<close>
theorem is_valid_date_window:
  "is_valid_date now (max_future_date now m) d
     = (now - 1825 * DAY \<le> d \<and> d \<le> now + (m * 30) * DAY)
   \<and> is_valid_date now (max_future_date now m) (now - 1825 * DAY) = (0 \<le> 1825 + m * 30)
   \<and> is_valid_date now (max_future_date now m) (now + (m * 30) * DAY) = (0 \<le> 1825 + m * 30)
   \<and> \<not> is_valid_date now (max_future_date now m) (now - 1825 * DAY - 1)
   \<and> \<not> is_valid_date now (max_future_date now m) (now + (m * 30) * DAY + 1)"
  by (simp add: is_valid_date_def max_future_date_def timedelta_def DAY_def) presburger

text \<open>
  C8. The day thresholds of all colour tables are inclusive. Under the tables of the
  citation source, the preprint aggregator and the preprint server a date exactly seven days
  before now (and any date less than eight full days before now) gets the colour of the
  recent tier, a date up to thirty days old (less than thirty-one full days) the middle
  colour, and an older one the stale colour. The generic helper has the thresholds three
  and seven days, and red for a missing date.
\<close>
theorem color_thresholds_inclusive:
  "get_pubmed_color now (now - timedelta 7) = ''#2E8B57''
   \<and> get_preprint_color now (now - timedelta 7) = ''#98FB98''
   \<and> get_researchsquare_color now (now - timedelta 7) = ''#8FBC8F''
   \<and> get_pubmed_color now d =
        (if now - d < timedelta 8 then ''#2E8B57''
         else if now - d < timedelta 31 then ''#DAA520'' else ''#B22222'')
   \<and> get_preprint_color now d =
        (if now - d < timedelta 8 then ''#98FB98''
         else if now - d < timedelta 31 then ''#FAFAD2'' else ''#FFA07A'')
   \<and> get_researchsquare_color now d =
        (if now - d < timedelta 8 then ''#8FBC8F''
         else if now - d < timedelta 31 then ''#DEB887'' else ''#CD5C5C'')
   \<and> get_color_by_date now (Some (now - timedelta 3)) = GREEN
   \<and> get_color_by_date now (Some (now - timedelta 7)) = YELLOW
   \<and> get_color_by_date now (Some d) =
        (if now - d < timedelta 4 then GREEN
         else if now - d < timedelta 8 then YELLOW else RED)
   \<and> get_color_by_date now None = RED"
  by (simp add: get_pubmed_color_def get_preprint_color_def get_researchsquare_color_def
      get_color_by_date_def days_le_iff days_timedelta)
    (simp add: timedelta_def DAY_def)

section \<open>Properties of the timeframe filter\<close>

text \<open>
  C3, as the claim states it, fails for the timeframe \<^verbatim>\<open>today\<close>: at noon of 2024-06-15 an
  article dated 2024-06-16 is kept, although its calendar day is not today.
\<close>
theorem filter_today_keeps_future_day:
  "filter_articles_by_timeframe noon_2024_06_15 [article_tomorrow] (Some ''today'')
     \<noteq> filter (\<lambda>a. date_of (date a) = date_of noon_2024_06_15) [article_tomorrow]"
  by (simp add: filter_articles_by_timeframe_def noon_2024_06_15_def article_tomorrow_def
      date_of_def DAY_def ymd2ord_def days_before_year_def days_before_month_def
      DAYS_IN_MONTH_def is_leap_def)

text \<open>
  C3, amended. With \<^verbatim>\<open>today\<close> the filter keeps exactly the articles whose calendar day is
  today or later, with \<^verbatim>\<open>week\<close> exactly those dated at or after the midnight that starts the
  day seven days before today, with \<^verbatim>\<open>month\<close> the same for thirty days, and with any other
  timeframe, the absent one included, it returns its input.
\<close>
theorem filter_articles_by_timeframe_spec:
  "filter_articles_by_timeframe now articles (Some ''today'')
     = filter (\<lambda>a. date_of now \<le> date_of (date a)) articles
   \<and> filter_articles_by_timeframe now articles (Some ''week'')
     = filter (\<lambda>a. (date_of now - 7) * DAY \<le> date a) articles
   \<and> filter_articles_by_timeframe now articles (Some ''month'')
     = filter (\<lambda>a. (date_of now - 30) * DAY \<le> date a) articles
   \<and> (timeframe \<notin> {Some ''today'', Some ''week'', Some ''month''}
        \<longrightarrow> filter_articles_by_timeframe now articles timeframe = articles)"
proof -
  have ge: "(s \<le> date_of x) = (s * DAY \<le> x)" for s x
    by (simp add: date_of_def le_div_DAY)
  show ?thesis
    by (simp add: filter_articles_by_timeframe_def days_timedelta ge)
qed

theorem filter_articles_by_timeframe_spec_witness:
  "filter_articles_by_timeframe noon_2024_06_15 [article_tomorrow] None = [article_tomorrow]
   \<and> filter_articles_by_timeframe noon_2024_06_15 [article_tomorrow] (Some ''today'')
       = [article_tomorrow]
   \<and> filter_articles_by_timeframe noon_2024_06_15 [article_tomorrow] (Some ''year'')
       = [article_tomorrow]"
  using filter_articles_by_timeframe_spec [of noon_2024_06_15 "[article_tomorrow]" None]
    filter_articles_by_timeframe_spec [of noon_2024_06_15 "[article_tomorrow]" "Some ''year''"]
  by (simp add: noon_2024_06_15_def article_tomorrow_def
      date_of_def DAY_def ymd2ord_def days_before_year_def days_before_month_def
      DAYS_IN_MONTH_def is_leap_def)

section \<open>Properties of the citation source adapter\<close>

lemma backoff_trace_0: "backoff_trace i d 0 = []"
  by (simp add: backoff_trace_def)

lemma backoff_trace_1: "backoff_trace i d (Suc 0) = [Request i]"
  by (simp add: backoff_trace_def)

lemma backoff_trace_Suc:
  "backoff_trace i d (Suc (Suc n)) = Request i # Sleep d # backoff_trace (Suc i) (d * 2) (Suc n)"
proof -
  let ?f = "\<lambda>k. if k = i then [Request k] else [Sleep (d * 2 ^ (k - i - 1)), Request k]"
  let ?g = "\<lambda>k. if k = Suc i then [Request k] else [Sleep (d * 2 * 2 ^ (k - Suc i - 1)), Request k]"
  let ?ks = "[Suc (Suc i)..<Suc (Suc i) + n]"
  have 1: "[i..<i + Suc (Suc n)] = i # Suc i # ?ks"
    by (simp add: upt_rec)
  have 2: "[Suc i..<Suc i + Suc n] = Suc i # ?ks"
    by (simp add: upt_rec)
  have 3: "?f k = ?g k" if "k \<in> set ?ks" for k
  proof -
    from that have "k - i - 1 = Suc (k - Suc i - 1)" "k \<noteq> i" "k \<noteq> Suc i" by auto
    then show ?thesis by simp
  qed
  have 4: "map ?f ?ks = map ?g ?ks"
    by (rule map_cong [OF refl]) (rule 3)
  have "backoff_trace i d (Suc (Suc n)) = ?f i @ ?f (Suc i) @ concat (map ?f ?ks)"
    unfolding backoff_trace_def 1 by simp
  also have "\<dots> = Request i # Sleep d # (?g (Suc i) @ concat (map ?g ?ks))"
    unfolding 4 by simp
  also have "?g (Suc i) @ concat (map ?g ?ks) = backoff_trace (Suc i) (d * 2) (Suc n)"
    unfolding backoff_trace_def 2 by simp
  finally show ?thesis .
qed

lemma retry_loop_trace:
  "i < nat mr \<Longrightarrow> retry_loop req mr [i..<nat mr] d = (r, evs) \<Longrightarrow>
     0 < attempts evs \<and> i + attempts evs \<le> nat mr \<and> evs = backoff_trace i d (attempts evs)"
proof (induction "nat mr - i" arbitrary: i d r evs)
  case 0
  then show ?case by simp
next
  case (Suc n)
  have up: "[i..<nat mr] = i # [Suc i..<nat mr]" using Suc.prems(1) by (simp add: upt_rec)
  show ?case
  proof (cases "req i")
    case (Returns x)
    with Suc.prems up show ?thesis by (auto simp: attempts_def backoff_trace_1)
  next
    case (Raises e)
    show ?thesis
    proof (cases "e = HTTPError 500 \<and> int i < mr - 1 \<and> 0 \<le> d")
      case False
      with Raises Suc.prems up show ?thesis
        by (cases e) (auto simp: attempts_def backoff_trace_1 split: if_splits)
    next
      case True
      then have lt: "Suc i < nat mr" by linarith
      obtain r' evs' where rec: "retry_loop req mr [Suc i..<nat mr] (d * 2) = (r', evs')"
        by (cases "retry_loop req mr [Suc i..<nat mr] (d * 2)")
      have n: "n = nat mr - Suc i" using Suc.hyps(2) by linarith
      from Suc.hyps(1) [OF n lt rec]
      have ih: "0 < attempts evs'" "Suc i + attempts evs' \<le> nat mr"
        "evs' = backoff_trace (Suc i) (d * 2) (attempts evs')" by simp_all
      have evs: "evs = Request i # Sleep d # evs'" and "r = r'"
        using True Raises Suc.prems(2) up rec by auto
      have att: "attempts evs = Suc (attempts evs')" by (simp add: evs attempts_def)
      obtain m where m: "attempts evs' = Suc m" using ih(1) by (cases "attempts evs'") auto
      show ?thesis
        using ih att evs m backoff_trace_Suc [of i d m] by simp
    qed
  qed
qed


lemma retry_loop_attempts_le:
  "retry_loop req mr [i..<nat mr] d = (r, evs) \<Longrightarrow> i + attempts evs \<le> max i (nat mr)"
proof (cases "i < nat mr")
  case True
  assume "retry_loop req mr [i..<nat mr] d = (r, evs)"
  from retry_loop_trace [OF True this] show ?thesis by simp
next
  case False
  assume "retry_loop req mr [i..<nat mr] d = (r, evs)"
  with False show ?thesis by (simp add: attempts_def)
qed

lemma retry_loop_reraise:
  "retry_loop req mr [i..<nat mr] d = (r, evs) \<Longrightarrow> Request k \<in> set evs \<Longrightarrow>
   req k = Raises e \<Longrightarrow> e \<noteq> HTTPError 500 \<or> int k = mr - 1 \<Longrightarrow> r = Inl e"
proof (induction "nat mr - i" arbitrary: i d r evs)
  case 0
  then show ?case by simp
next
  case (Suc n)
  have up: "[i..<nat mr] = i # [Suc i..<nat mr]" using Suc.hyps(2) by (simp add: upt_rec)
  show ?case
  proof (cases "req i")
    case (Returns x)
    with Suc.prems up show ?thesis by auto
  next
    case (Raises e')
    show ?thesis
    proof (cases "e' = HTTPError 500 \<and> int i < mr - 1 \<and> 0 \<le> d")
      case False
      with Raises Suc.prems up show ?thesis
        by (cases e') (auto split: if_splits)
    next
      case True
      obtain r' evs' where rec: "retry_loop req mr [Suc i..<nat mr] (d * 2) = (r', evs')"
        by (cases "retry_loop req mr [Suc i..<nat mr] (d * 2)")
      have n: "n = nat mr - Suc i" using Suc.hyps(2) by linarith
      have evs: "evs = Request i # Sleep d # evs'" and r: "r = r'"
        using True Raises Suc.prems(1) up rec by auto
      have "k \<noteq> i" using True Raises Suc.prems(3,4) by auto
      with Suc.prems(2) evs have "Request k \<in> set evs'" by simp
      from Suc.hyps(1) [OF n rec this Suc.prems(3,4)] r show ?thesis by simp
    qed
  qed
qed

lemma retry_loop_third_attempt:
  assumes "3 \<le> mr" "0 \<le> d"
    and "req 0 = Raises (HTTPError 500)" "req 1 = Raises (HTTPError 500)" "req 2 = Returns res"
  shows "fst (retry_loop req mr [0..<nat mr] d) = Inr res"
proof -
  have "[0..<nat mr] = 0 # 1 # 2 # [3..<nat mr]"
    using assms(1) by (simp add: upt_rec numeral_3_eq_3)
  then show ?thesis
    using assms by (simp add: split_def)
qed

text \<open>
  C5. A run of \<^verbatim>\<open>search_pubmed\<close> with \<^verbatim>\<open>max_retries\<close> at least 3 and a non-negative initial
  delay, in which the request fails with the retryable error (HTTP 500) twice and succeeds on
  the third attempt, returns the successful result. In every run the number of attempts is at
  most \<^verbatim>\<open>max_retries\<close> (none when it is not positive); the trace of the run is attempt 0
  followed, for every further attempt \<open>k\<close> (the code's \<^verbatim>\<open>attempt\<close> variable), by a sleep of
  \<open>initial_delay * 2 ^ (k - 1)\<close> and then attempt \<open>k\<close>; and a failure other than HTTP 500, or
  any failure at the last permitted attempt \<open>max_retries - 1\<close>, is re-raised to the caller.
\<close>
theorem search_pubmed_retry_backoff:
  "search_pubmed esearch q page rpp max_retries initial_delay = (result, events) \<Longrightarrow>
   request = esearch q rpp ((page - 1) * rpp) \<Longrightarrow>
     (3 \<le> max_retries \<and> 0 \<le> initial_delay \<and> request 0 = Raises (HTTPError 500)
        \<and> request 1 = Raises (HTTPError 500) \<and> request 2 = Returns res
        \<longrightarrow> result = Inr res)
   \<and> attempts events \<le> nat max_retries
   \<and> events = concat (map (\<lambda>k. if k = 0 then [Request 0]
                                 else [Sleep (initial_delay * 2 ^ (k - 1)), Request k])
                         [0..<attempts events])
   \<and> (\<forall>k e. Request k \<in> set events \<and> request k = Raises e
              \<and> (e \<noteq> HTTPError 500 \<or> int k = max_retries - 1)
            \<longrightarrow> result = Inl e)"
proof -
  assume run: "search_pubmed esearch q page rpp max_retries initial_delay = (result, events)"
    and req: "request = esearch q rpp ((page - 1) * rpp)"
  have loop: "retry_loop request max_retries [0..<nat max_retries] initial_delay = (result, events)"
    using run req by (simp add: search_pubmed_def)
  have a: "3 \<le> max_retries \<and> 0 \<le> initial_delay \<and> request 0 = Raises (HTTPError 500)
        \<and> request 1 = Raises (HTTPError 500) \<and> request 2 = Returns res
        \<longrightarrow> result = Inr res"
    using retry_loop_third_attempt [of max_retries initial_delay request res] loop by auto
  have b: "attempts events \<le> nat max_retries"
    using retry_loop_attempts_le [OF loop] by simp
  have c: "events = backoff_trace 0 initial_delay (attempts events)"
  proof (cases "0 < nat max_retries")
    case True
    from retry_loop_trace [OF True loop] show ?thesis by simp
  next
    case False
    with loop show ?thesis by (simp add: attempts_def backoff_trace_0)
  qed
  have d: "\<forall>k e. Request k \<in> set events \<and> request k = Raises e
              \<and> (e \<noteq> HTTPError 500 \<or> int k = max_retries - 1)
            \<longrightarrow> result = Inl e"
    using retry_loop_reraise [OF loop] by blast
  have c': "backoff_trace 0 initial_delay n
      = concat (map (\<lambda>k. if k = 0 then [Request 0]
                          else [Sleep (initial_delay * 2 ^ (k - 1)), Request k]) [0..<n])" for n
    unfolding backoff_trace_def
    by (rule arg_cong [where f = concat], rule map_cong) simp_all
  from a b c d show ?thesis
    unfolding c' by blast
qed

theorem search_pubmed_retry_backoff_witness:
  "search_pubmed flaky_esearch ''covid'' 1 100 3 1
     = (Inr [''38000001''], [Request 0, Sleep 1, Request 1, Sleep 2, Request 2])
   \<and> (3::int) \<le> 3 \<and> (0::int) \<le> 1
   \<and> flaky_esearch ''covid'' 100 0 0 = Raises (HTTPError 500)
   \<and> flaky_esearch ''covid'' 100 0 1 = Raises (HTTPError 500)
   \<and> flaky_esearch ''covid'' 100 0 2 = Returns [''38000001'']
   \<and> attempts [Request 0, Sleep 1, Request 1, Sleep 2, Request 2] \<le> nat 3
   \<and> search_pubmed flaky_esearch ''covid'' 1 100 2 1
     = (Inl (HTTPError 500), [Request 0, Sleep 1, Request 1])
   \<and> Request 1 \<in> set [Request 0, Sleep 1, Request 1]
   \<and> int 1 = 2 - 1
   \<and> search_pubmed not_found_esearch ''covid'' 1 100 3 1 = (Inl (HTTPError 404), [Request 0])
   \<and> not_found_esearch ''covid'' 100 0 0 = Raises (HTTPError 404)
   \<and> HTTPError 404 \<noteq> HTTPError 500"
proof -
  have run3: "search_pubmed flaky_esearch ''covid'' 1 100 3 1
     = (Inr [''38000001''], [Request 0, Sleep 1, Request 1, Sleep 2, Request 2])"
    by (simp add: search_pubmed_def flaky_esearch_def upt_rec numeral_3_eq_3)
  have run2: "search_pubmed flaky_esearch ''covid'' 1 100 2 1
     = (Inl (HTTPError 500), [Request 0, Sleep 1, Request 1])"
    by (simp add: search_pubmed_def flaky_esearch_def upt_rec numeral_2_eq_2)
  have run404: "search_pubmed not_found_esearch ''covid'' 1 100 3 1 = (Inl (HTTPError 404), [Request 0])"
    by (simp add: search_pubmed_def not_found_esearch_def upt_rec numeral_3_eq_3)
  show ?thesis
    using search_pubmed_retry_backoff [OF run3 refl, of "[''38000001'']"]
      search_pubmed_retry_backoff [OF run2 refl, of "[]"]
      search_pubmed_retry_backoff [OF run404 refl, of "[]"] run3 run2 run404
    by (simp add: flaky_esearch_def not_found_esearch_def attempts_def)
qed


section \<open>Properties of the cross-query merger\<close>

lemma merge_occurrences_Cons:
  "merge_occurrences seen ((q, r) # occ) = merge_occurrences (merge_result q seen r) occ"
  by (simp add: merge_occurrences_def)

lemma map_of_merge_result:
  "map_of (merge_result q seen r) t =
     (if title_of r = t
      then (case map_of seen t of
              None \<Rightarrow> Some (article.extend r (merged_article.fields [q]))
            | Some a \<Rightarrow> Some (a\<lparr>queries := queries a @ [q]\<rparr>))
      else map_of seen t)"
  by (auto simp: merge_result_def title_of_def Let_def map_of_map_entry AList.update_conv'
      split: option.splits)

lemma map_of_merge_occurrences:
  "map_of (merge_occurrences seen occ) t =
     (case map_of seen t of
        Some a \<Rightarrow> Some (a\<lparr>queries := queries a @ map fst (filter (\<lambda>(q, r). title_of r = t) occ)\<rparr>)
      | None \<Rightarrow> first_stored (filter (\<lambda>(q, r). title_of r = t) occ))"
proof (induction occ arbitrary: seen)
  case Nil
  show ?case
    by (simp add: merge_occurrences_def first_stored_def split: option.splits)
next
  case (Cons p occ)
  obtain q r where p: "p = (q, r)" by (cases p)
  show ?case
    unfolding p merge_occurrences_Cons Cons.IH map_of_merge_result
    by (simp add: first_stored_def article.defs merged_article.defs split: option.splits)
qed

lemma set_map_entry:
  "(k, v) \<in> set (AList.map_entry t f xs) \<Longrightarrow> (k, v) \<in> set xs \<or> (k = t \<and> (\<exists>w. (t, w) \<in> set xs \<and> v = f w))"
  by (induction xs) (auto split: if_splits)

lemma set_update:
  "(k, v) \<in> set (AList.update t w xs) \<Longrightarrow> (k, v) \<in> set xs \<or> (k, v) = (t, w)"
  by (induction xs) (auto split: if_splits)

lemma keyed_by_title_merge_result:
  assumes "keyed_by_title seen"
  shows "keyed_by_title (merge_result q seen r)"
proof -
  have d: "distinct (map fst (merge_result q seen r))"
    using assms by (simp add: keyed_by_title_def merge_result_def Let_def
        AList.distinct_map_entry AList.distinct_update)
  have "title_of a = t" if "(t, a) \<in> set (merge_result q seen r)" for t a
  proof (cases "map_of seen (extract_title (html r)) \<noteq> None")
    case True
    with that have "(t, a) \<in> set (AList.map_entry (extract_title (html r))
        (\<lambda>stored. stored\<lparr>queries := queries stored @ [q]\<rparr>) seen)"
      by (simp add: merge_result_def)
    from set_map_entry [OF this] assms show ?thesis
      by (auto simp: keyed_by_title_def list_all_iff title_of_def)
  next
    case False
    with that have "(t, a) \<in> set (AList.update (extract_title (html r))
        (article.extend r (merged_article.fields [q])) seen)"
      by (simp add: merge_result_def)
    from set_update [OF this] assms show ?thesis
      by (auto simp: keyed_by_title_def list_all_iff title_of_def article.defs)
  qed
  with d show ?thesis
    by (auto simp: keyed_by_title_def list_all_iff)
qed

lemma keyed_by_title_merge_occurrences:
  "keyed_by_title seen \<Longrightarrow> keyed_by_title (merge_occurrences seen occ)"
proof (induction occ arbitrary: seen)
  case Nil
  then show ?case by (simp add: merge_occurrences_def)
next
  case (Cons p occ)
  obtain q r where p: "p = (q, r)" by (cases p)
  show ?case
    unfolding p merge_occurrences_Cons
    by (rule Cons.IH) (rule keyed_by_title_merge_result [OF Cons.prems])
qed

lemma filter_title_values:
  "keyed_by_title seen \<Longrightarrow>
     filter (\<lambda>a. title_of a = t) (map snd seen) = (case map_of seen t of None \<Rightarrow> [] | Some a \<Rightarrow> [a])"
proof (induction seen)
  case Nil
  then show ?case by simp
next
  case (Cons p seen)
  obtain k a where p: "p = (k, a)" by (cases p)
  from Cons.prems have ok: "keyed_by_title seen" and ka: "title_of a = k" and
    fresh: "k \<notin> fst ` set seen"
    by (auto simp: keyed_by_title_def p)
  show ?case
  proof (cases "k = t")
    case True
    with fresh have "map_of seen t = None" by (simp add: map_of_eq_None_iff)
    with Cons.IH [OF ok] True ka show ?thesis by (simp add: p)
  next
    case False
    with Cons.IH [OF ok] ka show ?thesis by (simp add: p)
  qed
qed

lemma query_loop_occurrences:
  "length rs = length qs \<Longrightarrow> (\<forall>i<length qs. search (n + i) (qs ! i) = Inr (rs ! i)) \<Longrightarrow>
     query_loop search n qs seen = Inr (merge_occurrences seen (occurrences qs rs))"
proof (induction qs arbitrary: rs n seen)
  case Nil
  then show ?case by (simp add: occurrences_def merge_occurrences_def)
next
  case (Cons q qs)
  then obtain r rs' where rs: "rs = r # rs'" by (cases rs) auto
  have hd: "search n q = Inr r" using Cons.prems(2) rs by force
  have tl: "\<forall>i<length qs. search (Suc n + i) (qs ! i) = Inr (rs' ! i)"
    using Cons.prems(2) rs by force
  have len: "length rs' = length qs" using Cons.prems(1) rs by simp
  have fold: "foldl (merge_result q) seen r = merge_occurrences seen (map (Pair q) r)"
    by (simp add: merge_occurrences_def foldl_map)
  show ?case
    using Cons.IH [OF len tl] hd
    by (simp add: rs occurrences_def fold merge_occurrences_def)
qed

lemma filter_sort_reverse:
  "filter P (sort_reverse key xs) = sort_reverse key (filter P xs)"
  by (simp add: sort_reverse_def filter_sort rev_filter [symmetric])

lemma sort_reverse_stable:
  "filter (\<lambda>x. key x = k) (sort_reverse key xs) = filter (\<lambda>x. key x = k) xs"
  by (simp add: sort_reverse_def rev_filter [symmetric] sort_key_stable)

lemma sorted_sort_reverse:
  "sorted_wrt (\<lambda>a b. key b \<le> key a) (sort_reverse key xs)"
proof -
  have "sorted (map key (sort_key key (rev xs)))" by (rule sorted_sort_key)
  then have "sorted_wrt (\<lambda>a b. key a \<le> key b) (sort_key key (rev xs))"
    by (simp add: sorted_map)
  then show ?thesis
    by (simp add: sort_reverse_def sorted_wrt_rev)
qed

lemma keys_map_entry: "map fst (AList.map_entry k f xs) = map fst xs"
  by (induction xs) auto

lemma keys_merge_result:
  "map fst (merge_result q seen r) =
     (if title_of r \<in> set (map fst seen) then map fst seen else map fst seen @ [title_of r])"
  by (auto simp: merge_result_def title_of_def Let_def keys_map_entry AList.update_keys
      map_of_eq_None_iff)

lemma first_seen_order_snoc:
  "first_seen_order (xs @ [x]) =
     (if x \<in> set (first_seen_order xs) then first_seen_order xs else first_seen_order xs @ [x])"
  by (simp add: first_seen_order_def)

lemma keys_merge_occurrences:
  "distinct (map fst seen) \<Longrightarrow>
     map fst (merge_occurrences seen occ) = first_seen_order (map fst seen @ map (\<lambda>(q, r). title_of r) occ)"
proof (induction occ rule: rev_induct)
  case Nil
  then show ?case by (simp add: merge_occurrences_def first_seen_order_def distinct_remdups_id)
next
  case (snoc p occ)
  obtain q r where p: "p = (q, r)" by (cases p)
  have "merge_occurrences seen (occ @ [p]) = merge_result q (merge_occurrences seen occ) r"
    by (simp add: merge_occurrences_def p)
  then show ?case
    using snoc.IH [OF snoc.prems] first_seen_order_snoc [of "map fst seen @ map (\<lambda>(q, r). title_of r) occ" "title_of r"]
    by (simp add: keys_merge_result p)
qed

lemma query_loop_merge:
  assumes "length rs = length qs" and "\<forall>i<length qs. search i (qs ! i) = Inr (rs ! i)"
  shows "query_loop search 0 qs [] = Inr (merge_occurrences [] (occurrences qs rs))"
  using query_loop_occurrences [of rs qs search 0 "[]"] assms by simp

lemma all_results_merge:
  assumes "length rs = length qs" and "\<forall>i<length qs. search i (qs ! i) = Inr (rs ! i)"
  shows "all_results search qs = Inr (sort_reverse date (map snd (merge_occurrences [] (occurrences qs rs))))"
  by (simp add: all_results_def query_loop_merge [where search = search, OF assms])

lemma merged_for_title:
  "filter (\<lambda>a. title_of a = t) (sort_reverse date (map snd (merge_occurrences [] occ)))
     = (case first_stored (filter (\<lambda>(q, r). title_of r = t) occ) of None \<Rightarrow> [] | Some a \<Rightarrow> [a])"
proof -
  have k: "keyed_by_title (merge_occurrences [] occ)"
    by (rule keyed_by_title_merge_occurrences) (simp add: keyed_by_title_def)
  have "sort_reverse date xs = xs" if "length xs \<le> 1" for xs :: "merged_article list"
    using that by (cases xs) (auto simp: sort_reverse_def)
  then show ?thesis
    unfolding filter_sort_reverse filter_title_values [OF k] map_of_merge_occurrences
    by (simp split: option.splits)
qed

text \<open>
  C1. Let the calls of \<^verbatim>\<open>search_articles\<close> for the queries return the lists \<open>rs\<close>
  (\<open>search i q\<close> is the call for the query \<open>q\<close> at position \<open>i\<close>; \<open>merged_results\<close> is
  \<open>all_results\<close> of the calls in given worlds). Then
  \<^verbatim>\<open>combine_and_display_results\<close> builds a merged list in which, for every title \<open>t\<close>: no
  article has the extracted title \<open>t\<close> when no result of any query has it, and otherwise
  exactly one article has it, whose \<^verbatim>\<open>queries\<close> list is the list of the query strings of all
  occurrences of the title, in the order in which they were seen and with repetitions kept.
\<close>
theorem merged_title_once:
  assumes "length rs = length qs" and "\<forall>i<length qs. search i (qs ! i) = Inr (rs ! i)"
  shows "\<exists>merged. all_results search qs = Inr merged \<and>
           (\<forall>t. (filter (\<lambda>(q, r). title_of r = t) (occurrences qs rs) = []
                   \<longrightarrow> filter (\<lambda>a. title_of a = t) merged = [])
              \<and> (filter (\<lambda>(q, r). title_of r = t) (occurrences qs rs) \<noteq> []
                   \<longrightarrow> (\<exists>a. filter (\<lambda>a. title_of a = t) merged = [a]
                          \<and> queries a = map fst (filter (\<lambda>(q, r). title_of r = t) (occurrences qs rs)))))"
proof -
  let ?merged = "sort_reverse date (map snd (merge_occurrences [] (occurrences qs rs)))"
  have "all_results search qs = Inr ?merged"
    by (rule all_results_merge [where search = search, OF assms])
  moreover have "filter (\<lambda>(q, r). title_of r = t) (occurrences qs rs) = []
       \<longrightarrow> filter (\<lambda>a. title_of a = t) ?merged = []" for t
    by (simp add: merged_for_title first_stored_def)
  moreover have "filter (\<lambda>(q, r). title_of r = t) (occurrences qs rs) \<noteq> []
       \<longrightarrow> (\<exists>a. filter (\<lambda>a. title_of a = t) ?merged = [a]
              \<and> queries a = map fst (filter (\<lambda>(q, r). title_of r = t) (occurrences qs rs)))" for t
    by (cases "filter (\<lambda>(q, r). title_of r = t) (occurrences qs rs)")
      (auto simp: merged_for_title first_stored_def article.defs merged_article.defs)
  ultimately show ?thesis by blast
qed

text \<open>
  C2. The merged list is sorted by date, non-increasing, and articles of equal date stand
  in the order of the values of the title dictionary, whose keys are in the order in which
  the titles were first seen.
\<close>
theorem merged_sorted_stable:
  assumes "length rs = length qs" and "\<forall>i<length qs. search i (qs ! i) = Inr (rs ! i)"
  shows "\<exists>seen merged.
           query_loop search 0 qs [] = Inr seen \<and> all_results search qs = Inr merged
         \<and> map fst seen = first_seen_order (map (\<lambda>(q, r). title_of r) (occurrences qs rs))
         \<and> sorted_wrt (\<lambda>a b. date b \<le> date a) merged
         \<and> (\<forall>d. filter (\<lambda>a. date a = d) merged = filter (\<lambda>a. date a = d) (map snd seen))"
proof -
  let ?seen = "merge_occurrences [] (occurrences qs rs)"
  have "map fst ?seen = first_seen_order (map (\<lambda>(q, r). title_of r) (occurrences qs rs))"
    using keys_merge_occurrences [of "[]" "occurrences qs rs"] by simp
  then show ?thesis
    using all_results_merge [where search = search, OF assms] query_loop_merge [where search = search, OF assms]
      sorted_sort_reverse [of date "map snd ?seen"]
      sort_reverse_stable [of date _ "map snd ?seen"]
    by blast
qed

lemma map_entry_truncate:
  "map (\<lambda>(k, a). (k, article.truncate a))
       (AList.map_entry t (\<lambda>stored. stored\<lparr>queries := queries stored @ [q]\<rparr>) seen)
     = map (\<lambda>(k, a). (k, article.truncate a)) seen"
  by (induction seen) (auto simp: article.defs)

lemma map_entry_queries:
  "distinct (map fst seen) \<Longrightarrow>
     map (\<lambda>(k, a). queries a)
       (AList.map_entry t (\<lambda>stored. stored\<lparr>queries := queries stored @ [q]\<rparr>) seen)
     = map (\<lambda>(k, a). if k = t then queries a @ [q] else queries a) seen"
  by (induction seen) (auto simp: rev_image_eqI)

lemma merge_result_repeated:
  assumes "map_of seen (title_of r) \<noteq> None"
  shows "merge_result q seen r
     = AList.map_entry (title_of r) (\<lambda>stored. stored\<lparr>queries := queries stored @ [q]\<rparr>) seen"
  using assms by (simp add: merge_result_def title_of_def)

text \<open>
  C10. When the title \<open>t\<close> occurs first in the result \<open>r0\<close> of the query \<open>q0\<close> and later again,
  the merged article for \<open>t\<close> has the date, colour, fragment and query of \<open>r0\<close>, whatever the
  later occurrences carry; only its \<^verbatim>\<open>queries\<close> list has grown. In the loop, merging a result
  whose title is already a key of the dictionary leaves the keys, their order and every
  field but \<^verbatim>\<open>queries\<close> of every stored article as they were, and appends the query to the
  list of the article stored under that title only.
\<close>
theorem repeated_title_keeps_first:
  assumes "length rs = length qs" and "\<forall>i<length qs. search i (qs ! i) = Inr (rs ! i)"
    and "filter (\<lambda>(q, r). title_of r = t) (occurrences qs rs) = (q0, r0) # later"
  shows "(\<exists>merged a. all_results search qs = Inr merged
            \<and> filter (\<lambda>a. title_of a = t) merged = [a]
            \<and> date a = date r0 \<and> color a = color r0 \<and> html a = html r0 \<and> query a = query r0
            \<and> queries a = q0 # map fst later)
       \<and> (\<forall>q r seen. distinct (map fst seen) \<and> map_of seen (title_of r) \<noteq> None \<longrightarrow>
            map (\<lambda>(k, a). (k, article.truncate a)) (merge_result q seen r)
              = map (\<lambda>(k, a). (k, article.truncate a)) seen
          \<and> map (\<lambda>(k, a). queries a) (merge_result q seen r)
              = map (\<lambda>(k, a). if k = title_of r then queries a @ [q] else queries a) seen)"
proof -
  let ?merged = "sort_reverse date (map snd (merge_occurrences [] (occurrences qs rs)))"
  let ?a = "article.extend r0 (merged_article.fields (q0 # map fst later))"
  have 1: "all_results search qs = Inr ?merged"
    by (rule all_results_merge [where search = search, OF assms(1,2)])
  have 2: "filter (\<lambda>a. title_of a = t) ?merged = [?a]"
    by (simp add: merged_for_title assms(3) first_stored_def)
  have 3: "date ?a = date r0 \<and> color ?a = color r0 \<and> html ?a = html r0 \<and> query ?a = query r0
      \<and> queries ?a = q0 # map fst later"
    by (simp add: article.defs merged_article.defs)
  have 4: "\<forall>q r seen. distinct (map fst seen) \<and> map_of seen (title_of r) \<noteq> None \<longrightarrow>
            map (\<lambda>(k, a). (k, article.truncate a)) (merge_result q seen r)
              = map (\<lambda>(k, a). (k, article.truncate a)) seen
          \<and> map (\<lambda>(k, a). queries a) (merge_result q seen r)
              = map (\<lambda>(k, a). if k = title_of r then queries a @ [q] else queries a) seen"
  proof (intro allI impI)
    fix q and r :: article and seen :: seen_titles
    assume h: "distinct (map fst seen) \<and> map_of seen (title_of r) \<noteq> None"
    then have m: "merge_result q seen r
        = AList.map_entry (title_of r) (\<lambda>stored. stored\<lparr>queries := queries stored @ [q]\<rparr>) seen"
      using merge_result_repeated [of seen r q] by blast
    show "map (\<lambda>(k, a). (k, article.truncate a)) (merge_result q seen r)
              = map (\<lambda>(k, a). (k, article.truncate a)) seen
          \<and> map (\<lambda>(k, a). queries a) (merge_result q seen r)
              = map (\<lambda>(k, a). if k = title_of r then queries a @ [q] else queries a) seen"
      unfolding m using h by (simp add: map_entry_truncate map_entry_queries)
  qed
  from 1 2 3 4 show ?thesis by blast
qed

lemmas demo_defs = alpha_covid_def beta_covid_def alpha_long_covid_def demo_queries_def
  demo_results_def demo_search_def

lemma demo_titles:
  "title_of alpha_covid = ''Alpha''" "title_of beta_covid = ''Beta''"
  "title_of alpha_long_covid = ''Alpha''"
  by (simp_all add: title_of_def extract_title_def demo_defs slice_def strip_def isspace_def)

lemma demo_search_results:
  "length demo_results = length demo_queries"
  "\<forall>i<length demo_queries. demo_search i (demo_queries ! i) = Inr (demo_results ! i)"
  by (simp_all add: demo_queries_def demo_results_def demo_search_def less_Suc_eq)

lemma demo_occurrences:
  "occurrences demo_queries demo_results
     = [(''covid'', alpha_covid), (''covid'', beta_covid), (''long covid'', alpha_long_covid)]"
  by (simp add: occurrences_def demo_queries_def demo_results_def)

theorem merged_title_once_witness:
  "length demo_results = length demo_queries
   \<and> demo_search 0 (demo_queries ! 0) = Inr (demo_results ! 0)
   \<and> demo_search 1 (demo_queries ! 1) = Inr (demo_results ! 1)
   \<and> filter (\<lambda>(q, r). title_of r = ''Alpha'') (occurrences demo_queries demo_results)
       = [(''covid'', alpha_covid), (''long covid'', alpha_long_covid)]
   \<and> filter (\<lambda>(q, r). title_of r = ''Gamma'') (occurrences demo_queries demo_results) = []
   \<and> (\<exists>merged a. all_results demo_search demo_queries = Inr merged
        \<and> filter (\<lambda>a. title_of a = ''Alpha'') merged = [a]
        \<and> queries a = [''covid'', ''long covid'']
        \<and> filter (\<lambda>a. title_of a = ''Gamma'') merged = [])"
proof -
  have occ: "filter (\<lambda>(q, r). title_of r = ''Alpha'') (occurrences demo_queries demo_results)
       = [(''covid'', alpha_covid), (''long covid'', alpha_long_covid)]"
    by (simp add: demo_occurrences demo_titles)
  have none: "filter (\<lambda>(q, r). title_of r = ''Gamma'') (occurrences demo_queries demo_results) = []"
    by (simp add: demo_occurrences demo_titles)
  from merged_title_once [where search = demo_search, OF demo_search_results]
  obtain merged where m: "all_results demo_search demo_queries = Inr merged"
    and t: "\<And>t. (filter (\<lambda>(q, r). title_of r = t) (occurrences demo_queries demo_results) = []
               \<longrightarrow> filter (\<lambda>a. title_of a = t) merged = [])
          \<and> (filter (\<lambda>(q, r). title_of r = t) (occurrences demo_queries demo_results) \<noteq> []
               \<longrightarrow> (\<exists>a. filter (\<lambda>a. title_of a = t) merged = [a]
                      \<and> queries a = map fst (filter (\<lambda>(q, r). title_of r = t)
                            (occurrences demo_queries demo_results))))"
    by blast
  from t [of "''Alpha''"] obtain a where "filter (\<lambda>a. title_of a = ''Alpha'') merged = [a]"
    "queries a = [''covid'', ''long covid'']"
    unfolding occ by auto
  moreover from t [of "''Gamma''"] have "filter (\<lambda>a. title_of a = ''Gamma'') merged = []"
    unfolding none by simp
  ultimately show ?thesis
    using m occ none demo_search_results(1)
    by (simp add: demo_queries_def demo_results_def demo_search_def)
qed

lemma tie_titles:
  "title_of tie_first = ''First''" "title_of tie_second = ''Second''" "title_of tie_newer = ''Newer''"
  by (simp_all add: title_of_def extract_title_def tie_first_def tie_second_def tie_newer_def
      slice_def strip_def isspace_def)

theorem merged_sorted_stable_witness:
  "length [[tie_first, tie_second, tie_newer]] = length [''covid'']
   \<and> tie_search 0 ([''covid''] ! 0) = Inr ([[tie_first, tie_second, tie_newer]] ! 0)
   \<and> (\<exists>seen merged. query_loop tie_search 0 [''covid''] [] = Inr seen
        \<and> all_results tie_search [''covid''] = Inr merged
        \<and> map fst seen = [''First'', ''Second'', ''Newer'']
        \<and> map date merged = [9, 5, 5]
        \<and> map title_of merged = [''Newer'', ''First'', ''Second''])"
proof -
  have eval: "all_results tie_search [''covid'']
      = Inr [article.extend tie_newer (merged_article.fields [''covid'']),
             article.extend tie_first (merged_article.fields [''covid'']),
             article.extend tie_second (merged_article.fields [''covid''])]"
    by (simp add: all_results_def tie_search_def merge_result_def tie_titles [unfolded title_of_def]
        sort_reverse_def)
      (simp add: tie_first_def tie_second_def tie_newer_def article.defs)
  have ext: "title_of (article.extend r m) = title_of r" "date (article.extend r m) = date r"
    for r :: article and m :: "unit merged_article_ext"
    by (simp_all add: title_of_def article.defs)
  have hyp: "length [[tie_first, tie_second, tie_newer]] = length [''covid'']"
    "\<forall>i<length [''covid'']. tie_search i ([''covid''] ! i) = Inr ([[tie_first, tie_second, tie_newer]] ! i)"
    by (simp_all add: tie_search_def)
  from merged_sorted_stable [where search = tie_search, OF hyp]
  obtain seen merged where "query_loop tie_search 0 [''covid''] [] = Inr seen"
    "all_results tie_search [''covid''] = Inr merged"
    "map fst seen = first_seen_order (map (\<lambda>(q, r). title_of r)
        (occurrences [''covid''] [[tie_first, tie_second, tie_newer]]))"
    by blast
  then show ?thesis
    using eval
    by (auto simp: occurrences_def tie_titles first_seen_order_def ext tie_search_def)
      (simp_all add: tie_first_def tie_second_def tie_newer_def)
qed

theorem repeated_title_keeps_first_witness:
  "length demo_results = length demo_queries
   \<and> demo_search 0 (demo_queries ! 0) = Inr (demo_results ! 0)
   \<and> demo_search 1 (demo_queries ! 1) = Inr (demo_results ! 1)
   \<and> filter (\<lambda>(q, r). title_of r = ''Alpha'') (occurrences demo_queries demo_results)
       = (''covid'', alpha_covid) # [(''long covid'', alpha_long_covid)]
   \<and> date alpha_covid < date alpha_long_covid
   \<and> (\<exists>merged a. all_results demo_search demo_queries = Inr merged
        \<and> filter (\<lambda>a. title_of a = ''Alpha'') merged = [a]
        \<and> date a = 100 \<and> color a = ''#B22222'' \<and> html a = ''<h3>Alpha</h3>''
        \<and> queries a = [''covid'', ''long covid''])
   \<and> distinct (map fst [(''Alpha'', article.extend alpha_covid (merged_article.fields [''covid'']))])
   \<and> map_of [(''Alpha'', article.extend alpha_covid (merged_article.fields [''covid'']))]
         (title_of alpha_long_covid) \<noteq> None
   \<and> map (\<lambda>(k, a). (k, article.truncate a))
        (merge_result ''long covid''
           [(''Alpha'', article.extend alpha_covid (merged_article.fields [''covid'']))] alpha_long_covid)
       = [(''Alpha'', alpha_covid)]
   \<and> map (\<lambda>(k, a). queries a)
        (merge_result ''long covid''
           [(''Alpha'', article.extend alpha_covid (merged_article.fields [''covid'']))] alpha_long_covid)
       = [[''covid'', ''long covid'']]"
proof -
  have occ: "filter (\<lambda>(q, r). title_of r = ''Alpha'') (occurrences demo_queries demo_results)
       = (''covid'', alpha_covid) # [(''long covid'', alpha_long_covid)]"
    by (simp add: demo_occurrences demo_titles)
  let ?seen = "[(''Alpha'', article.extend alpha_covid (merged_article.fields [''covid'']))]"
  have pre: "distinct (map fst ?seen) \<and> map_of ?seen (title_of alpha_long_covid) \<noteq> None"
    by (simp add: demo_titles)
  note inst = repeated_title_keeps_first [where search = demo_search, OF demo_search_results occ]
  from inst obtain merged a where ma: "all_results demo_search demo_queries = Inr merged"
    "filter (\<lambda>a. title_of a = ''Alpha'') merged = [a]"
    "date a = date alpha_covid" "color a = color alpha_covid" "html a = html alpha_covid"
    "queries a = [''covid'', ''long covid'']"
    by auto
  from inst pre have step:
    "map (\<lambda>(k, a). (k, article.truncate a)) (merge_result ''long covid'' ?seen alpha_long_covid)
       = map (\<lambda>(k, a). (k, article.truncate a)) ?seen"
    "map (\<lambda>(k, a). queries a) (merge_result ''long covid'' ?seen alpha_long_covid)
       = map (\<lambda>(k, a). if k = title_of alpha_long_covid then queries a @ [''long covid''] else queries a) ?seen"
    by blast+
  have 1: "\<exists>merged a. all_results demo_search demo_queries = Inr merged
        \<and> filter (\<lambda>a. title_of a = ''Alpha'') merged = [a]
        \<and> date a = 100 \<and> color a = ''#B22222'' \<and> html a = ''<h3>Alpha</h3>''
        \<and> queries a = [''covid'', ''long covid'']"
    using ma by (auto simp: alpha_covid_def)
  have 2: "map (\<lambda>(k, a). (k, article.truncate a)) (merge_result ''long covid'' ?seen alpha_long_covid)
       = [(''Alpha'', alpha_covid)]"
    unfolding step(1) by (simp add: article.defs alpha_covid_def)
  have 3: "map (\<lambda>(k, a). queries a) (merge_result ''long covid'' ?seen alpha_long_covid)
       = [[''covid'', ''long covid'']]"
    unfolding step(2) by (simp add: demo_titles article.defs merged_article.defs)
  have 4: "date alpha_covid < date alpha_long_covid"
    by (simp add: alpha_covid_def alpha_long_covid_def)
  have 5: "demo_search 0 (demo_queries ! 0) = Inr (demo_results ! 0)"
    "demo_search 1 (demo_queries ! 1) = Inr (demo_results ! 1)"
    by (simp_all add: demo_search_def demo_results_def)
  from demo_search_results(1) 5 occ 4 1 pre 2 3 show ?thesis by blast
qed

section \<open>Properties of the record normaliser and of the pipeline\<close>

lemma bind_exn_Inr: "bind_exn m f = Inr y \<longleftrightarrow> (\<exists>x. m = Inr x \<and> f x = Inr y)"
  by (cases m) (simp_all add: bind_exn_def)

lemma bind_exn_simps [simp]: "bind_exn (Inl e) f = Inl e" "bind_exn (Inr x) f = f x"
  by (simp_all add: bind_exn_def)

lemma pubmed_article_date:
  assumes "pubmed_article cd mf q paper = Inr (Some a)"
  shows "\<exists>pd dates. PubmedData paper = Some pd \<and> History pd = Some dates
           \<and> online_date dates = Inr (date a) \<and> is_valid_date cd mf (date a) \<and> query a = q"
proof -
  from assms obtain dates where h: "(case PubmedData paper of None \<Rightarrow> None | Some pd \<Rightarrow> History pd) = Some dates"
    by (cases "case PubmedData paper of None \<Rightarrow> None | Some pd \<Rightarrow> History pd")
      (simp_all add: pubmed_article_def)
  then obtain pd where pd: "PubmedData paper = Some pd" "History pd = Some dates"
    by (cases "PubmedData paper") simp_all
  from assms h obtain d where d: "online_date dates = Inr d"
    by (cases "online_date dates") (simp_all add: pubmed_article_def)
  from assms h d have "is_valid_date cd mf d \<and> date a = d \<and> query a = q"
    by (cases "is_valid_date cd mf d") (auto simp: pubmed_article_def Let_def)
  with pd d show ?thesis by auto
qed

lemma preprint_article_date:
  assumes "preprint_article cd mf q paper = Inr (Some a)"
  shows "\<exists>s. subscript (pp_fields paper) ''date'' = Inr s \<and> strptime_ymd s = Inr (date a)
           \<and> is_valid_date cd mf (date a) \<and> query a = q"
proof -
  from assms obtain s where s: "subscript (pp_fields paper) ''date'' = Inr s"
    by (cases "subscript (pp_fields paper) ''date''") (simp_all add: preprint_article_def)
  from assms s obtain d where d: "strptime_ymd s = Inr d"
    by (cases "strptime_ymd s") (simp_all add: preprint_article_def)
  from assms s d have "is_valid_date cd mf d \<and> date a = d \<and> query a = q"
    by (cases "is_valid_date cd mf d") (auto simp: preprint_article_def Let_def)
  with s d show ?thesis by auto
qed

lemma researchsquare_article_date:
  assumes "researchsquare_article cd mf now q paper = Inr (Some a)"
  shows "\<exists>s. subscript paper ''posted_at'' = Inr s \<and> strptime_ymd_hms s = Inr (date a)
           \<and> is_valid_date cd mf (date a) \<and> query a = q"
proof -
  from assms obtain s where s: "subscript paper ''posted_at'' = Inr s"
    by (cases "subscript paper ''posted_at''") (simp_all add: researchsquare_article_def)
  from assms s obtain d where d: "strptime_ymd_hms s = Inr d"
    by (cases "strptime_ymd_hms s") (simp_all add: researchsquare_article_def)
  from assms s d have "is_valid_date cd mf d \<and> date a = d \<and> query a = q"
    by (cases "is_valid_date cd mf d") (auto simp: researchsquare_article_def Let_def)
  with s d show ?thesis by auto
qed

lemma process_pubmed_eq:
  "process_pubmed cd mf q papers acc
     = acc @ List.map_filter (\<lambda>p. kept (pubmed_article cd mf q p)) papers"
  by (induction papers arbitrary: acc)
    (auto simp: List.map_filter_simps kept_def split: sum.splits option.splits)

lemma process_preprints_eq:
  "process_preprints cd mf q papers acc
     = acc @ List.map_filter (\<lambda>p. kept (preprint_article cd mf q p)) papers"
  by (induction papers arbitrary: acc)
    (auto simp: List.map_filter_simps kept_def split: sum.splits option.splits)

lemma researchsquare_article_now:
  "isl (researchsquare_article cd mf now q p) = isl (researchsquare_article cd mf now' q p)"
  "(researchsquare_article cd mf now q p = Inr None) = (researchsquare_article cd mf now' q p = Inr None)"
  by (auto simp: researchsquare_article_def bind_exn_def Let_def split: sum.splits)

lemma process_researchsquare_length:
  "length (fst (process_researchsquare cd mf clock q papers (acc, k)))
     = length acc + length (filter (\<lambda>p. \<exists>a. researchsquare_article cd mf now q p = Inr (Some a)) papers)"
proof (induction papers arbitrary: acc k)
  case Nil
  then show ?case by simp
next
  case (Cons p papers)
  have *: "(\<exists>a. researchsquare_article cd mf now q p = Inr (Some a))
      = (\<exists>a. researchsquare_article cd mf (clock k) q p = Inr (Some a))"
    using researchsquare_article_now [of cd mf now q p "clock k"]
    by (cases "researchsquare_article cd mf now q p"; cases "researchsquare_article cd mf (clock k) q p")
      auto
  show ?case
    by (cases "researchsquare_article cd mf (clock k) q p")
      (auto simp: Cons.IH * split: option.splits)
qed

lemma process_researchsquare_set:
  "a \<in> set (fst (process_researchsquare cd mf clock q papers (acc, k))) \<Longrightarrow>
     a \<in> set acc \<or> (\<exists>p now. p \<in> set papers \<and> researchsquare_article cd mf now q p = Inr (Some a))"
proof (induction papers arbitrary: acc k)
  case Nil
  then show ?case by simp
next
  case (Cons p papers)
  show ?case
  proof (cases "researchsquare_article cd mf (clock k) q p")
    case (Inl e)
    with Cons.prems Cons.IH [of acc k] show ?thesis by auto
  next
    case (Inr r)
    show ?thesis
    proof (cases r)
      case None
      with Inr Cons.prems Cons.IH [of acc k] show ?thesis by auto
    next
      case (Some b)
      with Inr Cons.prems Cons.IH [of "acc @ [b]" "Suc k"] show ?thesis by auto
    qed
  qed
qed

lemma length_map_filter_kept:
  "length (List.map_filter (\<lambda>p. kept (f p)) ps) = length (filter (\<lambda>p. \<exists>a. f p = Inr (Some a)) ps)"
proof -
  have "(kept (f p) \<noteq> None) = (\<exists>a. f p = Inr (Some a))" for p
    by (auto simp: kept_def split: sum.splits option.splits)
  then show ?thesis by (simp add: List.map_filter_def)
qed

lemma count_all_but_one:
  assumes "length (filter (\<lambda>p. isl (f p)) ps) = 1" and "\<forall>p\<in>set ps. f p \<noteq> Inr None"
  shows "length (filter (\<lambda>p. \<exists>a. f p = Inr (Some a)) ps) = length ps - 1"
proof -
  have "(\<exists>a. f p = Inr (Some a)) = (\<not> isl (f p))" if "p \<in> set ps" for p
    using assms(2) that by (cases "f p") auto
  then have "filter (\<lambda>p. \<exists>a. f p = Inr (Some a)) ps = filter (\<lambda>p. \<not> isl (f p)) ps"
    by (intro filter_cong) auto
  moreover have "length ps = length (filter (\<lambda>p. isl (f p)) ps) + length (filter (\<lambda>p. \<not> isl (f p)) ps)"
    by (rule sum_length_filter_compl [symmetric])
  ultimately show ?thesis using assms(1) by simp
qed

lemma strptime_recent: "strptime_ymd ''2024-06-10'' = Inr (ymd2ord 2024 6 10 * DAY)"
  by (simp add: strptime_ymd_def number_field_def day_field_def isdigit_def int_of_digits_def
      datetime_ymd_def datetime_hms_def days_in_month_def DAYS_IN_MONTH_def is_leap_def)

lemma strptime_old: "strptime_ymd ''2010-01-01'' = Inr (ymd2ord 2010 1 1 * DAY)"
  by (simp add: strptime_ymd_def number_field_def day_field_def isdigit_def int_of_digits_def
      datetime_ymd_def datetime_hms_def days_in_month_def DAYS_IN_MONTH_def is_leap_def)

lemma strptime_bad: "strptime_ymd ''June 2024'' = Inl ValueError"
  by (simp add: strptime_ymd_def)

lemmas calendar_defs = ymd2ord_def days_before_year_def days_before_month_def DAYS_IN_MONTH_def
  is_leap_def DAY_def timedelta_def

lemma preprint_examples:
  "\<exists>a. preprint_article noon_2024_06_15 (max_future_date noon_2024_06_15 6) ''covid'' recent_preprint
         = Inr (Some a)"
  "preprint_article noon_2024_06_15 (max_future_date noon_2024_06_15 6) ''covid'' bad_date_preprint
     = Inl ValueError"
  "preprint_article noon_2024_06_15 (max_future_date noon_2024_06_15 6) ''covid'' old_preprint
     = Inr None"
  by (simp_all add: preprint_article_def recent_preprint_def bad_date_preprint_def old_preprint_def
      subscript_def strptime_recent strptime_old strptime_bad is_valid_date_def max_future_date_def
      noon_2024_06_15_def calendar_defs Let_def)

text \<open>
  C6, as the claim states it, fails: of the three preprint records below exactly one is
  malformed (its date does not parse), and normalisation yields one article, not two, because
  the record dated 2010 is well-formed and outside the validity window.
\<close>
theorem one_malformed_of_three_yields_one:
  "isl (preprint_article noon_2024_06_15 (max_future_date noon_2024_06_15 6) ''covid'' bad_date_preprint)
   \<and> \<not> isl (preprint_article noon_2024_06_15 (max_future_date noon_2024_06_15 6) ''covid'' recent_preprint)
   \<and> \<not> isl (preprint_article noon_2024_06_15 (max_future_date noon_2024_06_15 6) ''covid'' old_preprint)
   \<and> length (process_preprints noon_2024_06_15 (max_future_date noon_2024_06_15 6) ''covid''
               [recent_preprint, bad_date_preprint, old_preprint] [])
       \<noteq> length [recent_preprint, bad_date_preprint, old_preprint] - 1"
  using preprint_examples by (auto simp: process_preprints_eq List.map_filter_simps kept_def)

text \<open>
  C6, amended. For each of the three sources the loop over a batch raises no exception and
  yields one article for every record that is well-formed and dated inside the validity
  window; an exception while a record is normalised drops that record only. So a batch of N
  records of which exactly one is malformed and all others are well-formed and dated inside
  the window yields exactly N - 1 articles.
\<close>
theorem malformed_record_dropped:
  "length (process_pubmed cd mf q papers [])
     = length (filter (\<lambda>p. \<exists>a. pubmed_article cd mf q p = Inr (Some a)) papers)
   \<and> length (process_preprints cd mf q preprints [])
     = length (filter (\<lambda>p. \<exists>a. preprint_article cd mf q p = Inr (Some a)) preprints)
   \<and> length (fst (process_researchsquare cd mf clock q rs_papers ([], k)))
     = length (filter (\<lambda>p. \<exists>a. researchsquare_article cd mf now q p = Inr (Some a)) rs_papers)
   \<and> (length (filter (\<lambda>p. isl (pubmed_article cd mf q p)) papers) = 1
        \<and> (\<forall>p\<in>set papers. pubmed_article cd mf q p \<noteq> Inr None)
      \<longrightarrow> length (process_pubmed cd mf q papers []) = length papers - 1)
   \<and> (length (filter (\<lambda>p. isl (preprint_article cd mf q p)) preprints) = 1
        \<and> (\<forall>p\<in>set preprints. preprint_article cd mf q p \<noteq> Inr None)
      \<longrightarrow> length (process_preprints cd mf q preprints []) = length preprints - 1)
   \<and> (length (filter (\<lambda>p. isl (researchsquare_article cd mf now q p)) rs_papers) = 1
        \<and> (\<forall>p\<in>set rs_papers. researchsquare_article cd mf now q p \<noteq> Inr None)
      \<longrightarrow> length (fst (process_researchsquare cd mf clock q rs_papers ([], k))) = length rs_papers - 1)"
proof -
  have 1: "length (process_pubmed cd mf q papers [])
     = length (filter (\<lambda>p. \<exists>a. pubmed_article cd mf q p = Inr (Some a)) papers)"
    by (simp add: process_pubmed_eq length_map_filter_kept)
  have 2: "length (process_preprints cd mf q preprints [])
     = length (filter (\<lambda>p. \<exists>a. preprint_article cd mf q p = Inr (Some a)) preprints)"
    by (simp add: process_preprints_eq length_map_filter_kept)
  have 3: "length (fst (process_researchsquare cd mf clock q rs_papers ([], k)))
     = length (filter (\<lambda>p. \<exists>a. researchsquare_article cd mf now q p = Inr (Some a)) rs_papers)"
    by (simp add: process_researchsquare_length [where now = now])
  show ?thesis
    unfolding 1 2 3
    using count_all_but_one [of "pubmed_article cd mf q" papers]
      count_all_but_one [of "preprint_article cd mf q" preprints]
      count_all_but_one [of "researchsquare_article cd mf now q" rs_papers]
    by blast
qed

lemma pubmed_status_date_first:
  assumes "map_of e ''PubStatus'' = Some ''pubmed''"
    and "\<forall>e'. Dict e' \<in> set before \<longrightarrow> map_of e' ''PubStatus'' \<noteq> Some ''pubmed''"
  shows "pubmed_status_date (before @ Dict e # rest)
     = bind_exn (entry_datetime e) (\<lambda>online_date. Inr (Some online_date))"
  using assms
proof (induction before)
  case Nil
  then show ?case by simp
next
  case (Cons x before)
  then show ?case by (cases x) auto
qed

lemma pubmed_status_date_none:
  assumes "\<forall>e'. Dict e' \<in> set dates \<longrightarrow> map_of e' ''PubStatus'' \<noteq> Some ''pubmed''"
  shows "pubmed_status_date dates = Inr None"
  using assms
proof (induction dates)
  case Nil
  then show ?case by simp
next
  case (Cons x dates)
  then show ?case by (cases x) auto
qed

lemma foldl_max_Max: "foldl max x xs = Max (set (x # xs))"
proof (induction xs arbitrary: x)
  case Nil
  then show ?case by simp
next
  case (Cons y ys)
  have "Max (set (x # y # ys)) = Max (set (max x y # ys))"
    by (cases ys) (simp_all add: max.assoc)
  with Cons show ?case by simp
qed

lemma online_date_first:
  assumes "map_of e ''PubStatus'' = Some ''pubmed''"
    and "\<forall>e'. Dict e' \<in> set before \<longrightarrow> map_of e' ''PubStatus'' \<noteq> Some ''pubmed''"
  shows "online_date (before @ Dict e # rest) = entry_datetime e"
  unfolding online_date_def pubmed_status_date_first [OF assms]
  by (cases "entry_datetime e") simp_all

lemma online_date_max:
  assumes "\<forall>e'. Dict e' \<in> set dates \<longrightarrow> map_of e' ''PubStatus'' \<noteq> Some ''pubmed''"
    and "history_datetimes dates = Inr ds" and "ds \<noteq> []"
  shows "online_date dates = Inr (Max (set ds))"
  unfolding online_date_def pubmed_status_date_none [OF assms(1)] max_history_date_def
  using assms(2,3) by (cases ds) (simp_all add: foldl_max_Max)

lemma pubmed_article_no_history:
  assumes "PubmedData paper = None \<or> (\<exists>pd. PubmedData paper = Some pd \<and> History pd = None)"
  shows "pubmed_article cd mf q paper = Inr None"
  using assms by (auto simp: pubmed_article_def)

lemma pubmed_article_online_date:
  assumes "PubmedData paper = Some pd" and "History pd = Some dates"
    and "online_date dates = Inr d" and "is_valid_date cd mf d"
  shows "\<exists>a. pubmed_article cd mf q paper = Inr (Some a) \<and> date a = d"
  using assms by (simp add: pubmed_article_def Let_def)

lemma pubmed_article_invalid:
  assumes "PubmedData paper = Some pd" and "History pd = Some dates"
    and "online_date dates = Inr d" and "\<not> is_valid_date cd mf d"
  shows "pubmed_article cd mf q paper = Inr None"
  using assms by (simp add: pubmed_article_def Let_def)

lemma py_int_examples:
  "py_int ''2024'' = Inr 2024" "py_int ''6'' = Inr 6" "py_int ''10'' = Inr 10" "py_int ''1'' = Inr 1"
  by (simp_all add: py_int_def strip_def isspace_def isdigit_def int_of_digits_def)

lemma entry_examples:
  "entry_datetime published_entry = Inr (ymd2ord 2024 6 10 * DAY)"
  "entry_datetime pubmed_entry = Inr (ymd2ord 2024 6 1 * DAY)"
  by (simp_all add: entry_datetime_def published_entry_def pubmed_entry_def subscript_def
      py_int_examples datetime_ymd_def datetime_hms_def days_in_month_def DAYS_IN_MONTH_def)

lemma valid_2024_06_01:
  "is_valid_date noon_2024_06_15 (max_future_date noon_2024_06_15 6) (ymd2ord 2024 6 1 * DAY)"
  by (simp add: is_valid_date_def max_future_date_def noon_2024_06_15_def calendar_defs)

text \<open>
  C7, as the claim states it, fails: the record below has a history entry tagged
  \<^verbatim>\<open>published\<close>, dated 2024-06-10, and one tagged \<^verbatim>\<open>pubmed\<close>, dated 2024-06-01. The article
  gets the date 2024-06-01, which is neither the date of the entry tagged \<^verbatim>\<open>published\<close> nor
  the maximum of the history dates.
\<close>
theorem published_tag_not_selected:
  "map_of published_entry ''PubStatus'' = Some ''published''
   \<and> entry_datetime published_entry = Inr (ymd2ord 2024 6 10 * DAY)
   \<and> map_sum id (map_option date)
        (pubmed_article noon_2024_06_15 (max_future_date noon_2024_06_15 6) ''covid'' published_and_pubmed)
       = Inr (Some (ymd2ord 2024 6 1 * DAY))
   \<and> ymd2ord 2024 6 1 * DAY \<noteq> ymd2ord 2024 6 10 * DAY"
proof -
  have "online_date [Dict published_entry, Dict pubmed_entry] = Inr (ymd2ord 2024 6 1 * DAY)"
    using online_date_first [of pubmed_entry "[Dict published_entry]" "[]"]
    by (simp add: entry_examples) (simp add: published_entry_def pubmed_entry_def)
  from pubmed_article_online_date [OF _ _ this valid_2024_06_01, of published_and_pubmed _ "''covid''"]
  obtain a where "pubmed_article noon_2024_06_15 (max_future_date noon_2024_06_15 6) ''covid''
      published_and_pubmed = Inr (Some a)" "date a = ymd2ord 2024 6 1 * DAY"
    by (auto simp: published_and_pubmed_def)
  then show ?thesis
    by (simp add: entry_examples) (simp add: published_entry_def calendar_defs)
qed

text \<open>
  C7, amended. For every citation-source record with a history, the article date is the
  date of the first history entry whose status tag equals \<^verbatim>\<open>pubmed\<close>; if no entry has that
  tag, it is the maximum of the dates of all history entries. An exception while these dates
  are built drops the record, a date outside the validity window excludes it, and a record
  with no history date structure at all is excluded from the result set.
\<close>
theorem pubmed_date_selection:
  "(map_of e ''PubStatus'' = Some ''pubmed''
      \<and> (\<forall>e'. Dict e' \<in> set before \<longrightarrow> map_of e' ''PubStatus'' \<noteq> Some ''pubmed'')
      \<longrightarrow> online_date (before @ Dict e # rest) = entry_datetime e)
   \<and> ((\<forall>e'. Dict e' \<in> set dates \<longrightarrow> map_of e' ''PubStatus'' \<noteq> Some ''pubmed'')
        \<and> history_datetimes dates = Inr ds \<and> ds \<noteq> []
      \<longrightarrow> online_date dates = Inr (Max (set ds)))
   \<and> (PubmedData paper = None \<or> (\<exists>pd. PubmedData paper = Some pd \<and> History pd = None)
      \<longrightarrow> pubmed_article cd mf q paper = Inr None)
   \<and> (PubmedData paper = Some pd \<and> History pd = Some dates \<and> online_date dates = Inr d
      \<longrightarrow> (if is_valid_date cd mf d
           then \<exists>a. pubmed_article cd mf q paper = Inr (Some a) \<and> date a = d
           else pubmed_article cd mf q paper = Inr None))
   \<and> (PubmedData paper = Some pd \<and> History pd = Some dates \<and> online_date dates = Inl x
      \<longrightarrow> pubmed_article cd mf q paper = Inl x)"
proof -
  have 5: "PubmedData paper = Some pd \<and> History pd = Some dates \<and> online_date dates = Inl x
      \<longrightarrow> pubmed_article cd mf q paper = Inl x"
    by (simp add: pubmed_article_def)
  show ?thesis
    using online_date_first [of e before rest] online_date_max [of dates ds]
      pubmed_article_no_history [of paper cd mf q]
      pubmed_article_online_date [of paper pd dates d cd mf q]
      pubmed_article_invalid [of paper pd dates d cd mf q] 5
    by auto
qed

lemma kept_Some: "kept r = Some a \<longleftrightarrow> r = Inr (Some a)"
  by (auto simp: kept_def split: sum.splits option.splits)

lemma set_map_filter_kept:
  "a \<in> set (List.map_filter (\<lambda>p. kept (f p)) ps) \<Longrightarrow> \<exists>p\<in>set ps. f p = Inr (Some a)"
proof -
  assume "a \<in> set (List.map_filter (\<lambda>p. kept (f p)) ps)"
  then obtain p where "p \<in> set ps" "kept (f p) \<noteq> None" "a = the (kept (f p))"
    by (auto simp: List.map_filter_def)
  then have "kept (f p) = Some a" by auto
  with \<open>p \<in> set ps\<close> show ?thesis by (auto simp: kept_Some)
qed

lemma set_filter_articles_by_timeframe:
  "set (filter_articles_by_timeframe now xs tf) \<subseteq> set xs"
  by (auto simp: filter_articles_by_timeframe_def Let_def split: option.splits if_splits)

lemma pipeline_valid:
  assumes "a \<in> set (fst (process_researchsquare cd mf clock q rs_papers
              (process_preprints cd mf q preprints (process_pubmed cd mf q papers []), k)))"
  shows "is_valid_date cd mf (date a)"
proof -
  from process_researchsquare_set [OF assms]
  consider "a \<in> set (process_preprints cd mf q preprints (process_pubmed cd mf q papers []))"
    | p now where "researchsquare_article cd mf now q p = Inr (Some a)"
    by blast
  then show ?thesis
  proof cases
    case 1
    then have "a \<in> set (List.map_filter (\<lambda>p. kept (pubmed_article cd mf q p)) papers)
        \<or> a \<in> set (List.map_filter (\<lambda>p. kept (preprint_article cd mf q p)) preprints)"
      by (auto simp: process_preprints_eq process_pubmed_eq)
    then show ?thesis
      using set_map_filter_kept [of a "pubmed_article cd mf q" papers]
        set_map_filter_kept [of a "preprint_article cd mf q" preprints]
        pubmed_article_date [of cd mf q _ a] preprint_article_date [of cd mf q _ a]
      by blast
  next
    case 2
    then show ?thesis using researchsquare_article_date by blast
  qed
qed

lemma bind_exnE:
  assumes "bind_exn m f = Inr y"
  obtains x where "m = Inr x" and "f x = Inr y"
  using assms by (auto simp: bind_exn_Inr)

lemma search_articles_valid:
  assumes "search_articles w q page rpp tf mfm = Inr found" and "a \<in> set found"
  shows "is_valid_date (w_clock w 2) (max_future_date (w_clock w 2) mfm) (date a)"
  using assms(1) unfolding search_articles_def Let_def
proof (elim bind_exnE)
  fix pubmed_results inner ids pubmed_papers preprint_results researchsquare_results
    papers preprints res rs_papers
  assume found: "(case process_researchsquare (w_clock w 2) (max_future_date (w_clock w 2) mfm) (w_clock w) q rs_papers
               (process_preprints (w_clock w 2) (max_future_date (w_clock w 2) mfm) q preprints
                  (process_pubmed (w_clock w 2) (max_future_date (w_clock w 2) mfm) q papers []), 3) of
             (all_articles, k) \<Rightarrow>
               Inr (if tf \<noteq> None \<and> tf \<noteq> Some []
                    then filter_articles_by_timeframe (w_clock w k) all_articles tf
                    else all_articles)) = Inr found"
  obtain arts k where p: "process_researchsquare (w_clock w 2) (max_future_date (w_clock w 2) mfm) (w_clock w) q rs_papers
               (process_preprints (w_clock w 2) (max_future_date (w_clock w 2) mfm) q preprints
                  (process_pubmed (w_clock w 2) (max_future_date (w_clock w 2) mfm) q papers []), 3) = (arts, k)"
    by (cases "process_researchsquare (w_clock w 2) (max_future_date (w_clock w 2) mfm) (w_clock w) q rs_papers
               (process_preprints (w_clock w 2) (max_future_date (w_clock w 2) mfm) q preprints
                  (process_pubmed (w_clock w 2) (max_future_date (w_clock w 2) mfm) q papers []), 3)")
  from found p assms(2) have "a \<in> set arts"
    using set_filter_articles_by_timeframe [of "w_clock w k" arts tf]
    by (auto split: if_splits)
  then show ?thesis
    using pipeline_valid [of a "w_clock w 2" "max_future_date (w_clock w 2) mfm" "w_clock w" q rs_papers
        preprints papers 3] p
    by simp
qed

lemma merge_result_invariant:
  assumes "\<forall>(t, a)\<in>set seen. queries a \<noteq> [] \<and> D (date a)" and "D (date r)"
  shows "\<forall>(t, a)\<in>set (merge_result q seen r). queries a \<noteq> [] \<and> D (date a)"
proof (cases "map_of seen (extract_title (html r)) \<noteq> None")
  case True
  then have m: "merge_result q seen r = AList.map_entry (extract_title (html r))
      (\<lambda>stored. stored\<lparr>queries := queries stored @ [q]\<rparr>) seen"
    by (simp add: merge_result_def)
  show ?thesis
    unfolding m using assms(1) set_map_entry by fastforce
next
  case False
  then have m: "merge_result q seen r = AList.update (extract_title (html r))
      (article.extend r (merged_article.fields [q])) seen"
    by (simp add: merge_result_def)
  show ?thesis
    unfolding m using assms set_update [of _ _ "extract_title (html r)" _ seen]
    by (fastforce simp: article.defs merged_article.defs)
qed

lemma foldl_merge_result_invariant:
  assumes "\<forall>(t, a)\<in>set seen. queries a \<noteq> [] \<and> D (date a)" and "\<forall>r\<in>set results. D (date r)"
  shows "\<forall>(t, a)\<in>set (foldl (merge_result q) seen results). queries a \<noteq> [] \<and> D (date a)"
  using assms
proof (induction results arbitrary: seen)
  case Nil
  then show ?case by simp
next
  case (Cons r results)
  have "\<forall>(t, a)\<in>set (merge_result q seen r). queries a \<noteq> [] \<and> D (date a)"
    by (rule merge_result_invariant) (use Cons.prems in auto)
  from Cons.IH [OF this] Cons.prems(2) show ?case by simp
qed

lemma query_loop_invariant:
  assumes "query_loop search n qs seen = Inr seen'"
    and "\<forall>(t, a)\<in>set seen. queries a \<noteq> [] \<and> D (date a)"
    and "\<And>i found r. i < length qs \<Longrightarrow> search (n + i) (qs ! i) = Inr found \<Longrightarrow> r \<in> set found \<Longrightarrow> D (date r)"
  shows "\<forall>(t, a)\<in>set seen'. queries a \<noteq> [] \<and> D (date a)"
  using assms
proof (induction qs arbitrary: n seen)
  case Nil
  then show ?case by simp
next
  case (Cons q qs)
  from Cons.prems(1) obtain found where f: "search n q = Inr found"
    and rest: "query_loop search (Suc n) qs (foldl (merge_result q) seen found) = Inr seen'"
    by (cases "search n q") simp_all
  have "\<forall>r\<in>set found. D (date r)"
    using Cons.prems(3) [of 0 found] f by simp
  then have inv: "\<forall>(t, a)\<in>set (foldl (merge_result q) seen found). queries a \<noteq> [] \<and> D (date a)"
    by (rule foldl_merge_result_invariant [OF Cons.prems(2)])
  show ?case
  proof (rule Cons.IH [OF rest inv])
    fix i found' r
    assume "i < length qs" "search (Suc n + i) (qs ! i) = Inr found'" "r \<in> set found'"
    then show "D (date r)"
      using Cons.prems(3) [of "Suc i" found' r] by simp
  qed
qed

text \<open>
  C9. Every article of the merged result has a date (the field is a datetime, never
  \<^verbatim>\<open>None\<close>) that lies in the validity window of a call of \<^verbatim>\<open>search_articles\<close> of this run,
  from five years (1825 days) before the \<^verbatim>\<open>current_date\<close> read by that call to
  \<^verbatim>\<open>30 * max_future_months\<close> days after it, and its \<^verbatim>\<open>queries\<close> list is not empty.
\<close>
theorem merged_articles_valid:
  assumes "merged_results worlds qs page rpp tf mfm = Inr merged" and "a \<in> set merged"
  shows "queries a \<noteq> []
     \<and> (\<exists>i<length qs. is_valid_date (w_clock (worlds i) 2) (max_future_date (w_clock (worlds i) 2) mfm) (date a)
           \<and> w_clock (worlds i) 2 - timedelta 1825 \<le> date a
           \<and> date a \<le> w_clock (worlds i) 2 + timedelta (30 * mfm))"
proof -
  let ?D = "\<lambda>d. \<exists>i<length qs. is_valid_date (w_clock (worlds i) 2) (max_future_date (w_clock (worlds i) 2) mfm) d"
  let ?search = "\<lambda>i qry. search_articles (worlds i) qry page rpp tf mfm"
  from assms(1) obtain seen where loop: "query_loop ?search 0 qs [] = Inr seen"
    and merged: "merged = sort_reverse date (map snd seen)"
    by (auto simp: merged_results_def all_results_def split: sum.splits)
  have "\<forall>(t, a)\<in>set seen. queries a \<noteq> [] \<and> ?D (date a)"
  proof (rule query_loop_invariant [OF loop])
    show "\<forall>(t, a)\<in>set []. queries a \<noteq> [] \<and> ?D (date a)" by simp
  next
    fix i found r
    assume "i < length qs" "search_articles (worlds (0 + i)) (qs ! i) page rpp tf mfm = Inr found"
      "r \<in> set found"
    then show "?D (date r)"
      using search_articles_valid [of "worlds i" "qs ! i" page rpp tf mfm found r] by auto
  qed
  moreover have "a \<in> snd ` set seen"
    using assms(2) merged by (simp add: sort_reverse_def)
  ultimately have "queries a \<noteq> [] \<and> ?D (date a)" by auto
  then show ?thesis
    by (auto simp: is_valid_date_def max_future_date_def)
qed

lemma demo_merged:
  "map_sum id (map (\<lambda>a. (date a, queries a)))
     (merged_results (\<lambda>i. demo_world) [''covid'', ''long covid''] 1 100 None 6)
   = Inr [(63853660800000000, [''covid'', ''long covid'']),
          (63852883200000000, [''covid'', ''long covid''])]"
  by code_simp

lemma more_entry_examples:
  "online_date [Dict no_year_entry] = Inl KeyError"
  "online_date [Dict old_entry] = Inr (ymd2ord 2010 1 1 * DAY)"
  by (simp_all add: online_date_def entry_datetime_def no_year_entry_def old_entry_def subscript_def
      py_int_examples datetime_ymd_def datetime_hms_def days_in_month_def DAYS_IN_MONTH_def
      py_int_def strip_def isspace_def isdigit_def int_of_digits_def)

lemma invalid_2010_01_01:
  "\<not> is_valid_date noon_2024_06_15 (max_future_date noon_2024_06_15 6) (ymd2ord 2010 1 1 * DAY)"
  by (simp add: is_valid_date_def max_future_date_def noon_2024_06_15_def calendar_defs)

theorem pubmed_date_selection_witness:
  "map_of pubmed_entry ''PubStatus'' = Some ''pubmed''
   \<and> map_of published_entry ''PubStatus'' \<noteq> Some ''pubmed''
   \<and> online_date ([Dict published_entry] @ Dict pubmed_entry # []) = Inr (ymd2ord 2024 6 1 * DAY)
   \<and> history_datetimes [Dict published_entry, NotDict] = Inr [ymd2ord 2024 6 10 * DAY]
   \<and> online_date [Dict published_entry, NotDict] = Inr (ymd2ord 2024 6 10 * DAY)
   \<and> PubmedData published_and_pubmed
        = Some \<lparr>History = Some [Dict published_entry, Dict pubmed_entry], ArticleIdList = None\<rparr>
   \<and> is_valid_date noon_2024_06_15 (max_future_date noon_2024_06_15 6) (ymd2ord 2024 6 1 * DAY)
   \<and> (\<exists>a. pubmed_article noon_2024_06_15 (max_future_date noon_2024_06_15 6) ''covid'' published_and_pubmed
              = Inr (Some a) \<and> date a = ymd2ord 2024 6 1 * DAY)
   \<and> pubmed_article noon_2024_06_15 (max_future_date noon_2024_06_15 6) ''covid''
        \<lparr>PubmedData = None, MedlineCitation = None\<rparr> = Inr None
   \<and> online_date [Dict old_entry] = Inr (ymd2ord 2010 1 1 * DAY)
   \<and> \<not> is_valid_date noon_2024_06_15 (max_future_date noon_2024_06_15 6) (ymd2ord 2010 1 1 * DAY)
   \<and> pubmed_article noon_2024_06_15 (max_future_date noon_2024_06_15 6) ''covid''
        \<lparr>PubmedData = Some \<lparr>History = Some [Dict old_entry], ArticleIdList = None\<rparr>,
         MedlineCitation = None\<rparr> = Inr None
   \<and> online_date [Dict no_year_entry] = Inl KeyError
   \<and> pubmed_article noon_2024_06_15 (max_future_date noon_2024_06_15 6) ''covid''
        \<lparr>PubmedData = Some \<lparr>History = Some [Dict no_year_entry], ArticleIdList = None\<rparr>,
         MedlineCitation = None\<rparr> = Inl KeyError"
proof -
  have tags: "map_of pubmed_entry ''PubStatus'' = Some ''pubmed''"
    "map_of published_entry ''PubStatus'' \<noteq> Some ''pubmed''"
    by (simp_all add: pubmed_entry_def published_entry_def)
  have hist: "history_datetimes [Dict published_entry, NotDict] = Inr [ymd2ord 2024 6 10 * DAY]"
    by (simp add: entry_examples)
  have first: "online_date ([Dict published_entry] @ Dict pubmed_entry # []) = Inr (ymd2ord 2024 6 1 * DAY)"
    using pubmed_date_selection [where e = pubmed_entry and before = "[Dict published_entry]" and rest = "[]"]
      tags by (simp add: entry_examples)
  have fallback: "online_date [Dict published_entry, NotDict] = Inr (ymd2ord 2024 6 10 * DAY)"
    using pubmed_date_selection [where dates = "[Dict published_entry, NotDict]"
        and ds = "[ymd2ord 2024 6 10 * DAY]"] tags hist
    by simp
  have pd: "PubmedData published_and_pubmed
        = Some \<lparr>History = Some [Dict published_entry, Dict pubmed_entry], ArticleIdList = None\<rparr>"
    by (simp add: published_and_pubmed_def)
  have article: "\<exists>a. pubmed_article noon_2024_06_15 (max_future_date noon_2024_06_15 6) ''covid''
        published_and_pubmed = Inr (Some a) \<and> date a = ymd2ord 2024 6 1 * DAY"
    using pubmed_date_selection [where paper = published_and_pubmed
        and pd = "\<lparr>History = Some [Dict published_entry, Dict pubmed_entry], ArticleIdList = None\<rparr>"
        and dates = "[Dict published_entry, Dict pubmed_entry]" and d = "ymd2ord 2024 6 1 * DAY"
        and cd = noon_2024_06_15 and mf = "max_future_date noon_2024_06_15 6" and q = "''covid''"]
      pd first valid_2024_06_01
    by simp
  have none: "pubmed_article noon_2024_06_15 (max_future_date noon_2024_06_15 6) ''covid''
        \<lparr>PubmedData = None, MedlineCitation = None\<rparr> = Inr None"
    using pubmed_date_selection [where paper = "\<lparr>PubmedData = None, MedlineCitation = None\<rparr>"
        and cd = noon_2024_06_15 and mf = "max_future_date noon_2024_06_15 6" and q = "''covid''"]
    by simp
  have old: "pubmed_article noon_2024_06_15 (max_future_date noon_2024_06_15 6) ''covid''
        \<lparr>PubmedData = Some \<lparr>History = Some [Dict old_entry], ArticleIdList = None\<rparr>,
         MedlineCitation = None\<rparr> = Inr None"
    using pubmed_date_selection [where
        paper = "\<lparr>PubmedData = Some \<lparr>History = Some [Dict old_entry], ArticleIdList = None\<rparr>, MedlineCitation = None\<rparr>"
        and pd = "\<lparr>History = Some [Dict old_entry], ArticleIdList = None\<rparr>"
        and dates = "[Dict old_entry]" and d = "ymd2ord 2010 1 1 * DAY"
        and cd = noon_2024_06_15 and mf = "max_future_date noon_2024_06_15 6" and q = "''covid''"]
      more_entry_examples(2) invalid_2010_01_01
    by simp
  have raised: "pubmed_article noon_2024_06_15 (max_future_date noon_2024_06_15 6) ''covid''
        \<lparr>PubmedData = Some \<lparr>History = Some [Dict no_year_entry], ArticleIdList = None\<rparr>,
         MedlineCitation = None\<rparr> = Inl KeyError"
    using pubmed_date_selection [where
        paper = "\<lparr>PubmedData = Some \<lparr>History = Some [Dict no_year_entry], ArticleIdList = None\<rparr>, MedlineCitation = None\<rparr>"
        and pd = "\<lparr>History = Some [Dict no_year_entry], ArticleIdList = None\<rparr>"
        and dates = "[Dict no_year_entry]" and x = KeyError
        and cd = noon_2024_06_15 and mf = "max_future_date noon_2024_06_15 6" and q = "''covid''"]
      more_entry_examples(1)
    by simp
  from tags first hist fallback pd valid_2024_06_01 article none old raised
    more_entry_examples invalid_2010_01_01
  show ?thesis by blast
qed

theorem merged_articles_valid_witness:
  "\<exists>merged a. merged_results (\<lambda>i. demo_world) [''covid'', ''long covid''] 1 100 None 6 = Inr merged
     \<and> a \<in> set merged \<and> queries a = [''covid'', ''long covid'']
     \<and> is_valid_date noon_2024_06_15 (max_future_date noon_2024_06_15 6) (date a)"
proof -
  from demo_merged obtain merged where
    m: "merged_results (\<lambda>i. demo_world) [''covid'', ''long covid''] 1 100 None 6 = Inr merged"
    and l: "map (\<lambda>a. (date a, queries a)) merged
        = [(63853660800000000, [''covid'', ''long covid'']), (63852883200000000, [''covid'', ''long covid''])]"
    by (cases "merged_results (\<lambda>i. demo_world) [''covid'', ''long covid''] 1 100 None 6") auto
  from l obtain a where a: "a \<in> set merged" "queries a = [''covid'', ''long covid'']"
    by (cases merged) auto
  from merged_articles_valid [OF m a(1)]
  have "is_valid_date noon_2024_06_15 (max_future_date noon_2024_06_15 6) (date a)"
    by (auto simp: demo_world_def)
  with m a show ?thesis by blast
qed

lemma strptime_hms_recent:
  "strptime_ymd_hms ''2024-06-10 10:00:00'' = Inr (ymd2ord 2024 6 10 * DAY + 36000000000)"
  by (simp add: strptime_ymd_hms_def number_field_def day_field_def isdigit_def isspace_def
      int_of_digits_def datetime_hms_def days_in_month_def DAYS_IN_MONTH_def is_leap_def Let_def)

lemma pubmed_examples:
  "\<exists>a. pubmed_article noon_2024_06_15 (max_future_date noon_2024_06_15 6) ''covid'' published_and_pubmed
         = Inr (Some a)"
  "pubmed_article noon_2024_06_15 (max_future_date noon_2024_06_15 6) ''covid'' no_year_paper
     = Inl KeyError"
proof -
  have "online_date [Dict published_entry, Dict pubmed_entry] = Inr (ymd2ord 2024 6 1 * DAY)"
    using online_date_first [of pubmed_entry "[Dict published_entry]" "[]"]
    by (simp add: entry_examples) (simp add: published_entry_def pubmed_entry_def)
  from pubmed_article_online_date [OF _ _ this valid_2024_06_01, of published_and_pubmed _ "''covid''"]
  show "\<exists>a. pubmed_article noon_2024_06_15 (max_future_date noon_2024_06_15 6) ''covid''
      published_and_pubmed = Inr (Some a)"
    by (auto simp: published_and_pubmed_def)
  show "pubmed_article noon_2024_06_15 (max_future_date noon_2024_06_15 6) ''covid'' no_year_paper
     = Inl KeyError"
    by (simp add: pubmed_article_def no_year_paper_def more_entry_examples)
qed

lemma researchsquare_examples:
  "\<exists>a. researchsquare_article noon_2024_06_15 (max_future_date noon_2024_06_15 6) noon_2024_06_15
         ''covid'' recent_researchsquare = Inr (Some a)"
  "researchsquare_article noon_2024_06_15 (max_future_date noon_2024_06_15 6) noon_2024_06_15
     ''covid'' undated_researchsquare = Inl KeyError"
  by (simp_all add: researchsquare_article_def recent_researchsquare_def undated_researchsquare_def
      subscript_def strptime_hms_recent is_valid_date_def max_future_date_def
      noon_2024_06_15_def calendar_defs Let_def)

theorem malformed_record_dropped_witness:
  "isl (preprint_article noon_2024_06_15 (max_future_date noon_2024_06_15 6) ''covid'' bad_date_preprint)
   \<and> (\<exists>a. preprint_article noon_2024_06_15 (max_future_date noon_2024_06_15 6) ''covid'' recent_preprint
            = Inr (Some a))
   \<and> length (process_preprints noon_2024_06_15 (max_future_date noon_2024_06_15 6) ''covid''
               [recent_preprint, bad_date_preprint] []) = 1
   \<and> isl (pubmed_article noon_2024_06_15 (max_future_date noon_2024_06_15 6) ''covid'' no_year_paper)
   \<and> (\<exists>a. pubmed_article noon_2024_06_15 (max_future_date noon_2024_06_15 6) ''covid'' published_and_pubmed
            = Inr (Some a))
   \<and> length (process_pubmed noon_2024_06_15 (max_future_date noon_2024_06_15 6) ''covid''
               [no_year_paper, published_and_pubmed] []) = 1
   \<and> isl (researchsquare_article noon_2024_06_15 (max_future_date noon_2024_06_15 6) noon_2024_06_15
            ''covid'' undated_researchsquare)
   \<and> (\<exists>a. researchsquare_article noon_2024_06_15 (max_future_date noon_2024_06_15 6) noon_2024_06_15
            ''covid'' recent_researchsquare = Inr (Some a))
   \<and> length (fst (process_researchsquare noon_2024_06_15 (max_future_date noon_2024_06_15 6)
                    (\<lambda>k. noon_2024_06_15) ''covid'' [recent_researchsquare, undated_researchsquare] ([], 3))) = 1"
proof -
  let ?cd = noon_2024_06_15 and ?mf = "max_future_date noon_2024_06_15 6"
  obtain a where a: "preprint_article ?cd ?mf ''covid'' recent_preprint = Inr (Some a)"
    using preprint_examples(1) by blast
  obtain b where b: "pubmed_article ?cd ?mf ''covid'' published_and_pubmed = Inr (Some b)"
    using pubmed_examples(1) by blast
  obtain c where c: "researchsquare_article ?cd ?mf ?cd ''covid'' recent_researchsquare = Inr (Some c)"
    using researchsquare_examples(1) by blast
  have pre: "length (filter (\<lambda>p. isl (preprint_article ?cd ?mf ''covid'' p))
      [recent_preprint, bad_date_preprint]) = 1
      \<and> (\<forall>p\<in>set [recent_preprint, bad_date_preprint]. preprint_article ?cd ?mf ''covid'' p \<noteq> Inr None)"
    using a preprint_examples(2) by simp
  have pub: "length (filter (\<lambda>p. isl (pubmed_article ?cd ?mf ''covid'' p))
      [no_year_paper, published_and_pubmed]) = 1
      \<and> (\<forall>p\<in>set [no_year_paper, published_and_pubmed]. pubmed_article ?cd ?mf ''covid'' p \<noteq> Inr None)"
    using b pubmed_examples(2) by simp
  have rs: "length (filter (\<lambda>p. isl (researchsquare_article ?cd ?mf ?cd ''covid'' p))
      [recent_researchsquare, undated_researchsquare]) = 1
      \<and> (\<forall>p\<in>set [recent_researchsquare, undated_researchsquare].
            researchsquare_article ?cd ?mf ?cd ''covid'' p \<noteq> Inr None)"
    using c researchsquare_examples(2) by simp
  from malformed_record_dropped [of ?cd ?mf "''covid''" "[no_year_paper, published_and_pubmed]"
        "[recent_preprint, bad_date_preprint]" "\<lambda>k. noon_2024_06_15"
        "[recent_researchsquare, undated_researchsquare]" 3 ?cd] pre pub rs
  have "length (process_preprints ?cd ?mf ''covid'' [recent_preprint, bad_date_preprint] []) = 1"
    "length (process_pubmed ?cd ?mf ''covid'' [no_year_paper, published_and_pubmed] []) = 1"
    "length (fst (process_researchsquare ?cd ?mf (\<lambda>k. noon_2024_06_15) ''covid''
        [recent_researchsquare, undated_researchsquare] ([], 3))) = 1"
    by simp_all
  then show ?thesis
    using a b c preprint_examples(2) pubmed_examples(2) researchsquare_examples(2) by simp
qed

end
